theory Spec2Isabelle
  imports Complex_Main "HOL-Library.Sublist" "HOL-Library.Signed_Division" "HOL-Library.Multiset"
begin

section \<open>JavaScript strings\<close>

text \<open>
  A JavaScript string is a sequence of UTF-16 code units. The module tests for the
  capital delta and the o with stroke and rewrites the musical flat and sharp signs, so the
  8-bit \<open>char\<close> of HOL is too small: a string is a list of code units, each a natural
  number. \<open>js\<close> embeds an ASCII literal.
\<close>

type_synonym jschar = nat
type_synonym jsstring = "jschar list"

definition js :: "string \<Rightarrow> jsstring" where
  "js s = map of_char s"

definition cuDelta :: jschar where "cuDelta = 916"        \<comment> \<open>U+0394, capital delta\<close>
definition cuDeltaSmall :: jschar where "cuDeltaSmall = 948"  \<comment> \<open>U+03B4, small delta\<close>
definition cuOSlash :: jschar where "cuOSlash = 248"      \<comment> \<open>U+00F8, small o with stroke\<close>
definition cuDegree :: jschar where "cuDegree = 176"      \<comment> \<open>U+00B0, degree sign\<close>
definition cuFlat :: jschar where "cuFlat = 9837"         \<comment> \<open>U+266D, music flat sign\<close>
definition cuSharp :: jschar where "cuSharp = 9839"       \<comment> \<open>U+266F, music sharp sign\<close>

text \<open>\<open>\s\<close> of a regular expression and the characters removed by \<open>trim\<close>: the
  WhiteSpace and LineTerminator code points of ECMAScript.\<close>

definition isLineTerminator :: "jschar \<Rightarrow> bool" where
  "isLineTerminator c = (c = 10 \<or> c = 13 \<or> c = 8232 \<or> c = 8233)"

definition isSpace :: "jschar \<Rightarrow> bool" where
  "isSpace c = (c = 9 \<or> c = 11 \<or> c = 12 \<or> c = 32 \<or> c = 160 \<or> c = 5760
      \<or> (8192 \<le> c \<and> c \<le> 8202) \<or> c = 8239 \<or> c = 8287 \<or> c = 12288 \<or> c = 65279
      \<or> isLineTerminator c)"

definition trim :: "jsstring \<Rightarrow> jsstring" where
  "trim s = rev (dropWhile isSpace (rev (dropWhile isSpace s)))"

text \<open>\<open>s.replace(a, b)\<close> with a one-character string pattern: only the first occurrence
  is replaced.\<close>

fun replaceFirst :: "jschar \<Rightarrow> jschar \<Rightarrow> jsstring \<Rightarrow> jsstring" where
  "replaceFirst a b [] = []"
| "replaceFirst a b (c # cs) = (if c = a then b # cs else c # replaceFirst a b cs)"

text \<open>
  \<open>toLowerCase\<close> and \<open>toUpperCase\<close>, code unit by code unit, on the Basic Latin and
  Latin-1 letters and on the Greek delta, which are the letters the substrings tested in
  this module can meet. \<open>toUpperCase\<close> of the sharp s is the two letters \<open>SS\<close>, so the upper
  case of a character is a string; \<open>upperCU\<close> also has the other characters whose upper case
  begins with a Basic Latin letter: the Latin ligatures U+FB00 to U+FB06 (\<open>FF\<close>, \<open>FI\<close>, \<open>FL\<close>,
  \<open>FFI\<close>, \<open>FFL\<close>, \<open>ST\<close>, \<open>ST\<close>), U+0149, U+01F0 and U+1E96 to U+1E9A, the dotless i and the
  long s. Every other code unit is left as it is.
\<close>

definition lowerCU :: "jschar \<Rightarrow> jschar" where
  "lowerCU c =
     (if 65 \<le> c \<and> c \<le> 90 then c + 32
      else if 192 \<le> c \<and> c \<le> 222 \<and> c \<noteq> 215 then c + 32
      else if c = cuDelta then cuDeltaSmall
      else c)"

definition toLowerCase :: "jsstring \<Rightarrow> jsstring" where
  "toLowerCase s = map lowerCU s"

definition upperCU :: "jschar \<Rightarrow> jsstring" where
  "upperCU c =
     (if 97 \<le> c \<and> c \<le> 122 then [c - 32]
      else if c = 223 then [83, 83]
      else if 224 \<le> c \<and> c \<le> 254 \<and> c \<noteq> 247 then [c - 32]
      else if c = 255 then [376]
      else if c = 181 then [924]
      else if c = cuDeltaSmall then [cuDelta]
      else if c = 305 then [73]
      else if c = 383 then [83]
      else if c = 329 then [700, 78]
      else if c = 496 then [74, 780]
      else if c = 7830 then [72, 817]
      else if c = 7831 then [84, 776]
      else if c = 7832 then [87, 778]
      else if c = 7833 then [89, 778]
      else if c = 7834 then [65, 702]
      else if c = 64256 then [70, 70]
      else if c = 64257 then [70, 73]
      else if c = 64258 then [70, 76]
      else if c = 64259 then [70, 70, 73]
      else if c = 64260 then [70, 70, 76]
      else if c = 64261 \<or> c = 64262 then [83, 84]
      else [c])"

definition toUpperCase :: "jsstring \<Rightarrow> jsstring" where
  "toUpperCase s = concat (map upperCU s)"

text \<open>\<open>s.includes(pat)\<close>: \<open>pat\<close> occurs in \<open>s\<close> as a contiguous substring.\<close>

fun includes_js :: "jsstring \<Rightarrow> jsstring \<Rightarrow> bool" where
  "includes_js [] pat = (pat = [])"
| "includes_js (c # cs) pat = (prefix pat (c # cs) \<or> includes_js cs pat)"

definition charAt0 :: "jsstring \<Rightarrow> jsstring" where
  "charAt0 s = take 1 s"

definition slice1 :: "jsstring \<Rightarrow> jsstring" where
  "slice1 s = drop 1 s"

section \<open>Pitch-class utilities (lib/voicing.ts)\<close>

text \<open>\<open>LETTER_BASE[letter]\<close>, \<open>None\<close> where the record has no such key.\<close>

definition LETTER_BASE :: "jsstring \<Rightarrow> int option" where
  "LETTER_BASE k =
     (if k = js ''C'' then Some 0
      else if k = js ''D'' then Some 2
      else if k = js ''E'' then Some 4
      else if k = js ''F'' then Some 5
      else if k = js ''G'' then Some 7
      else if k = js ''A'' then Some 9
      else if k = js ''B'' then Some 11
      else None)"

definition normalizePc :: "jsstring \<Rightarrow> jsstring" where
  "normalizePc pc =
     (let s = replaceFirst cuSharp 35 (replaceFirst cuFlat 98 (trim pc));
          head = toUpperCase (charAt0 s);
          tail = slice1 s
      in head @ tail)"

text \<open>The loop over the accidentals: \<open>#\<close> is code unit 35 and \<open>b\<close> is 98.\<close>

fun accDelta :: "jsstring \<Rightarrow> int \<Rightarrow> int" where
  "accDelta [] delta = delta"
| "accDelta (ch # acc) delta =
     (let d1 = (if ch = 35 then delta + 1 else delta);
          d2 = (if ch = 98 then d1 - 1 else d1)
      in accDelta acc d2)"

text \<open>JavaScript's \<open>%\<close> takes the sign of the dividend: it is \<open>smod\<close>.\<close>

definition pcToSemitone :: "jsstring \<Rightarrow> int" where
  "pcToSemitone pc =
     (let s = normalizePc pc;
          letter = charAt0 s;
          base = (case LETTER_BASE letter of Some b \<Rightarrow> b | None \<Rightarrow> 0);
          acc = slice1 s;
          delta = accDelta acc 0;
          v = (base + delta) smod 12
      in if v < 0 then v + 12 else v)"

definition signedSemitoneDiff :: "jsstring \<Rightarrow> jsstring \<Rightarrow> int" where
  "signedSemitoneDiff fromPc toPc =
     (let a = pcToSemitone fromPc;
          b = pcToSemitone toPc;
          d = (b - a + 12) smod 12;
          signed = ((d + 6) smod 12) - 6
      in signed)"

section \<open>Chord parsing (lib/voicing.ts)\<close>

text \<open>
  What \<open>Chord.get\<close> of the tonal library returns, as far as this module reads it. A
  missing or \<open>null\<close> field is \<open>None\<close>. The library is not part of the repository: every
  function that calls it takes the lookup as its first argument \<open>chordGet\<close>.
\<close>

record TonalChord =
  c_tonic :: "jsstring option"
  c_notes :: "jsstring list"
  c_quality :: "jsstring option"

datatype Quality = major | minor | diminished | augmented

record Parsed =
  core :: jsstring
  slashBass :: "jsstring option"
  tonic :: jsstring
  p_notes :: "jsstring list"
  qualityGuess :: Quality

text \<open>
  \<open>splitSlash\<close> matches the trimmed input against
  \<^verbatim>\<open>/^(.+?)\s*\/\s*([A-Ga-g][b#]?)$/\<close>.
  \<open>matchBass\<close> is the second group up to the end of the input, \<open>matchTail\<close> is everything
  after the first group, and \<open>matchLazy\<close> grows the first group one character at a time
  (\<open>.\<close> does not match a line terminator), stopping at the first length for which the
  tail matches, as the lazy quantifier does.
\<close>

definition isBassLetter :: "jschar \<Rightarrow> bool" where
  "isBassLetter c = ((65 \<le> c \<and> c \<le> 71) \<or> (97 \<le> c \<and> c \<le> 103))"

definition matchBass :: "jsstring \<Rightarrow> bool" where
  "matchBass s =
     (case s of
        [] \<Rightarrow> False
      | l # r \<Rightarrow> isBassLetter l \<and> (r = [] \<or> r = [98] \<or> r = [35]))"

definition matchTail :: "jsstring \<Rightarrow> jsstring option" where
  "matchTail s =
     (case dropWhile isSpace s of
        [] \<Rightarrow> None
      | c # r \<Rightarrow>
          if c = 47 then
            (let g2 = dropWhile isSpace r in if matchBass g2 then Some g2 else None)
          else None)"

fun matchLazy :: "jsstring \<Rightarrow> jsstring \<Rightarrow> (jsstring \<times> jsstring) option" where
  "matchLazy g1 [] = None"
| "matchLazy g1 (c # r) =
     (case matchTail (c # r) of
        Some g2 \<Rightarrow> Some (g1, g2)
      | None \<Rightarrow> if isLineTerminator c then None else matchLazy (g1 @ [c]) r)"

definition splitSlash :: "jsstring \<Rightarrow> jsstring \<times> jsstring option" where
  "splitSlash input =
     (let t = trim input;
          m = (case t of
                 [] \<Rightarrow> None
               | c # r \<Rightarrow> if isLineTerminator c then None else matchLazy [c] r)
      in case m of
           None \<Rightarrow> (t, None)
         | Some (g1, g2) \<Rightarrow> (trim g1, Some (normalizePc g2)))"

definition guessQuality :: "jsstring \<Rightarrow> jsstring option \<Rightarrow> Quality" where
  "guessQuality symbol tonalQuality =
     (let s = toLowerCase symbol in
      if includes_js s (js ''dim'') \<or> includes_js s (js ''o'') \<or> includes_js s (js ''m7b5'')
           \<or> includes_js s [cuOSlash] then diminished
      else if includes_js s (js ''aug'') \<or> includes_js s (js ''+'') then augmented
      else
        (let q = toLowerCase (case tonalQuality of None \<Rightarrow> [] | Some x \<Rightarrow> x) in
         if includes_js q (js ''minor'') then minor
         else if includes_js q (js ''major'') then major
         else if includes_js s (js ''m'') \<and> \<not> includes_js s (js ''maj'') then minor
         else major))"

text \<open>\<open>!c?.tonic\<close> holds for a missing tonic and for the empty string.\<close>

definition parseChordSymbol :: "(jsstring \<Rightarrow> TonalChord) \<Rightarrow> jsstring \<Rightarrow> Parsed option" where
  "parseChordSymbol chordGet input =
     (let (cr, slash) = splitSlash input;
          c = chordGet cr
      in case c_tonic c of
           None \<Rightarrow> None
         | Some t \<Rightarrow>
             if t = [] then None
             else Some \<lparr> core = cr, slashBass = slash, tonic = normalizePc t,
                         p_notes = map normalizePc (c_notes c),
                         qualityGuess = guessQuality cr (c_quality c) \<rparr>)"

definition toneAt :: "Parsed \<Rightarrow> nat \<Rightarrow> jsstring option" where
  "toneAt p idx = (if idx < length (p_notes p) then Some (p_notes p ! idx) else None)"

definition rootPc :: "Parsed \<Rightarrow> jsstring" where "rootPc p = tonic p"
definition thirdPc :: "Parsed \<Rightarrow> jsstring option" where "thirdPc p = toneAt p 1"
definition fifthPc :: "Parsed \<Rightarrow> jsstring option" where "fifthPc p = toneAt p 2"
definition seventhPc :: "Parsed \<Rightarrow> jsstring option" where "seventhPc p = toneAt p 3"
definition ninthPc :: "Parsed \<Rightarrow> jsstring option" where "ninthPc p = toneAt p 4"
definition thirteenthPc :: "Parsed \<Rightarrow> jsstring option" where "thirteenthPc p = toneAt p 6"

text \<open>The \<open>??\<close> operator.\<close>

definition orElse :: "'a option \<Rightarrow> 'a \<Rightarrow> 'a" where
  "orElse x d = (case x of None \<Rightarrow> d | Some v \<Rightarrow> v)"

section \<open>Midi placement (lib/voicing.ts)\<close>

text \<open>
  \<open>midiFrom pc oct\<close> is \<open>Tone.Frequency(pc + oct).toMidi()\<close> and \<open>toNote m\<close> is
  \<open>Tone.Frequency(m, "midi").toNote()\<close>. Tone.js is not part of the repository: both are
  arguments, and pitches are integers.
\<close>

type_synonym midiFromT = "jsstring \<Rightarrow> int \<Rightarrow> int"

function nearestAbove_loop :: "int \<Rightarrow> int \<Rightarrow> int" where
  "nearestAbove_loop m minMidi = (if m < minMidi then nearestAbove_loop (m + 12) minMidi else m)"
  by pat_completeness auto
termination
  by (relation "measure (\<lambda>(m, minMidi). nat (minMidi - m))") auto

definition nearestAbove :: "midiFromT \<Rightarrow> jsstring \<Rightarrow> int \<Rightarrow> int \<Rightarrow> int" where
  "nearestAbove midiFrom pc minMidi anchorOct = nearestAbove_loop (midiFrom pc anchorOct) minMidi"

text \<open>
  \<open>topMin\<close> is \<open>Math.min(...sorted.slice(-3))\<close>: \<open>slice(-3)\<close> keeps the last three elements,
  or all of them when there are fewer, and the minimum is taken of a non-empty list, since
  \<open>clampLowMud\<close> reaches it with at least two pitches.
\<close>

definition topMin :: "int list \<Rightarrow> int" where
  "topMin midis =
     (let sorted = sort midis;
          top3 = drop (length sorted - 3) sorted
      in Min (set top3))"

definition clampLowMud :: "int list \<Rightarrow> int \<Rightarrow> int list" where
  "clampLowMud midis minTop =
     (if length midis < 2 then midis
      else
        (let sorted = sort midis
         in if topMin midis \<ge> minTop then sorted
            else
              (let delta = 12 * \<lceil>real_of_int (minTop - topMin midis) / 12\<rceil>
               in map2 (\<lambda>m i. if i = 0 then m else m + delta) sorted [0..<length sorted])))"

definition applyShift :: "int list \<Rightarrow> int \<Rightarrow> int list" where
  "applyShift midis shift = (if shift = 0 then midis else map (\<lambda>m. m + shift) midis)"

section \<open>Voicing builders (lib/voicing.ts)\<close>

text \<open>
  The placement loop \<open>for (const pc of pcs) { m = nearestAbove(pc, min + 1, oct);
  placed.push(m); min = m + 1 }\<close>, which \<open>buildClosedFromPcs\<close> and the shell, guide and
  rootless presets all run.
\<close>

fun placeLoop :: "midiFromT \<Rightarrow> int \<Rightarrow> jsstring list \<Rightarrow> int \<Rightarrow> int list \<Rightarrow> int list" where
  "placeLoop midiFrom oct [] mn placed = placed"
| "placeLoop midiFrom oct (pc # pcs) mn placed =
     (let m = nearestAbove midiFrom pc (mn + 1) oct
      in placeLoop midiFrom oct pcs (m + 1) (placed @ [m]))"

definition buildClosedFromPcs :: "midiFromT \<Rightarrow> jsstring \<Rightarrow> jsstring list \<Rightarrow> int \<Rightarrow> int list" where
  "buildClosedFromPcs midiFrom anchorPc pcs centerOctave =
     (if pcs = [] then []
      else
        (let baseOct = max 1 (centerOctave - 1);
             mn = midiFrom anchorPc baseOct - 1
         in placeLoop midiFrom baseOct pcs mn []))"

datatype DropKind = drop2 | drop3 | drop24 | drop4

definition applyDrop :: "int list \<Rightarrow> DropKind \<Rightarrow> int list" where
  "applyDrop stack kind =
     (if length stack \<noteq> 4 then stack
      else
        (let v1 = stack ! 0; v2 = stack ! 1; v3 = stack ! 2; v4 = stack ! 3
         in if kind = drop2 then sort [v1, v2, v3 - 12, v4]
            else if kind = drop3 then sort [v1, v2 - 12, v3, v4]
            else if kind = drop4 then sort [v1 - 12, v2, v3, v4]
            else sort [v1 - 12, v2, v3 - 12, v4]))"

record OmitFlags =
  root :: bool
  third :: bool
  fifth :: bool
  seventh :: bool

record VoicingOptions =
  omit :: "OmitFlags option"

definition omitOk :: "(OmitFlags \<Rightarrow> bool) \<Rightarrow> OmitFlags option \<Rightarrow> bool" where
  "omitOk deg om = (case om of None \<Rightarrow> True | Some fl \<Rightarrow> \<not> deg fl)"

datatype PadVoicingPreset =
    PAD_TRIAD_BASS_35R
  | DROP2_1357_NO_BASS
  | DROP3_1357_NO_BASS
  | DROP24_1357_NO_BASS
  | DROP4_1357_NO_BASS
  | SHELL_R37_NO_BASS
  | GUIDE_379_NO_BASS
  | ROOTLESS_37_9_NO_BASS

record VoicingResult =
  chordSymbol :: jsstring
  preset :: PadVoicingPreset
  midis :: "int list"
  v_notes :: "jsstring list"

text \<open>\<open>if (c) pcs.push(x)\<close>.\<close>

definition pushIf :: "bool \<Rightarrow> 'a \<Rightarrow> 'a list \<Rightarrow> 'a list" where
  "pushIf c x xs = (if c then xs @ [x] else xs)"

text \<open>The pitch classes of the four drop presets: root, third, fifth, seventh.\<close>

definition pcs1357 :: "Parsed \<Rightarrow> OmitFlags option \<Rightarrow> jsstring list" where
  "pcs1357 p om =
     (let r = rootPc p; t3 = thirdPc p; t5 = fifthPc p; t7 = seventhPc p
      in pushIf (omitOk seventh om) (orElse t7 (orElse t5 r))
           (pushIf (omitOk fifth om) (orElse t5 r)
             (pushIf (omitOk third om) (orElse t3 r)
               (pushIf (omitOk root om) r []))))"

text \<open>The body of the preset branches of \<open>buildPadVoicing\<close>: the value of \<open>midis\<close> when
  the fallback test is reached.\<close>

definition presetMidis ::
  "midiFromT \<Rightarrow> Parsed \<Rightarrow> int \<Rightarrow> PadVoicingPreset \<Rightarrow> OmitFlags option \<Rightarrow> int list" where
  "presetMidis midiFrom p centerOctave pre om =
     (let r = rootPc p; t3 = thirdPc p; t5 = fifthPc p; t7 = seventhPc p;
          t9 = ninthPc p; t13 = thirteenthPc p;
          bassPc = orElse (slashBass p) r
      in case pre of
           PAD_TRIAD_BASS_35R \<Rightarrow>
             (let bassOct = max 1 (centerOctave - 2);
                  bass = midiFrom bassPc bassOct;
                  tmp0 = pushIf (\<not> ((case om of None \<Rightarrow> False | Some fl \<Rightarrow> root fl) \<and> bassPc = r))
                           bass [];
                  cursor0 = (if tmp0 \<noteq> [] then last tmp0 + 2 else bass - 6);
                  m3 = nearestAbove midiFrom (orElse t3 r) cursor0 (centerOctave - 1);
                  tmp1 = pushIf (omitOk third om) m3 tmp0;
                  cursor1 = (if omitOk third om then m3 + 2 else cursor0);
                  m5 = nearestAbove midiFrom (orElse t5 r) cursor1 (centerOctave - 1);
                  tmp2 = pushIf (omitOk fifth om) m5 tmp1;
                  cursor2 = (if omitOk fifth om then m5 + 2 else cursor1);
                  topR = nearestAbove midiFrom r cursor2 centerOctave;
                  tmp3 = pushIf (omitOk root om) topR tmp2
              in clampLowMud tmp3 55)
         | DROP2_1357_NO_BASS \<Rightarrow>
             clampLowMud (applyDrop (buildClosedFromPcs midiFrom r (pcs1357 p om) centerOctave) drop2) 58
         | DROP3_1357_NO_BASS \<Rightarrow>
             clampLowMud (applyDrop (buildClosedFromPcs midiFrom r (pcs1357 p om) centerOctave) drop3) 58
         | DROP24_1357_NO_BASS \<Rightarrow>
             clampLowMud (applyDrop (buildClosedFromPcs midiFrom r (pcs1357 p om) centerOctave) drop24) 58
         | DROP4_1357_NO_BASS \<Rightarrow>
             clampLowMud (applyDrop (buildClosedFromPcs midiFrom r (pcs1357 p om) centerOctave) drop4) 58
         | SHELL_R37_NO_BASS \<Rightarrow>
             (let pcs = pushIf (omitOk seventh om) (orElse t7 (orElse t5 r))
                          (pushIf (omitOk third om) (orElse t3 r)
                            (pushIf (omitOk root om) r [])) @ [orElse t9 (orElse t5 r)];
                  mn = midiFrom r (max 1 (centerOctave - 1)) - 1
              in clampLowMud (placeLoop midiFrom centerOctave pcs mn []) 60)
         | GUIDE_379_NO_BASS \<Rightarrow>
             (let pcs = pushIf (omitOk root om) r
                          (pushIf (omitOk seventh om) (orElse t7 (orElse t5 r))
                            (pushIf (omitOk third om) (orElse t3 r) []) @ [orElse t9 (orElse t5 r)]);
                  mn = midiFrom r (max 1 (centerOctave - 1)) - 1
              in clampLowMud (placeLoop midiFrom centerOctave pcs mn []) 60)
         | ROOTLESS_37_9_NO_BASS \<Rightarrow>
             (let pcs = pushIf (omitOk seventh om) (orElse t7 (orElse t5 r))
                          (pushIf (omitOk third om) (orElse t3 r) [])
                        @ [orElse t9 (orElse t5 r)] @ [orElse t13 (orElse t5 r)];
                  mn = midiFrom r (max 1 (centerOctave - 1)) - 1
              in clampLowMud (placeLoop midiFrom centerOctave pcs mn []) 62))"

text \<open>The single pitch emitted when the preset left \<open>midis\<close> empty.\<close>

definition fallbackMidis :: "midiFromT \<Rightarrow> Parsed \<Rightarrow> int \<Rightarrow> int list" where
  "fallbackMidis midiFrom p centerOctave =
     (let fallbackPc = orElse (slashBass p) (rootPc p)
      in [midiFrom fallbackPc (max 1 (centerOctave - 1))])"

definition buildPadVoicing ::
  "(jsstring \<Rightarrow> TonalChord) \<Rightarrow> midiFromT \<Rightarrow> (int \<Rightarrow> jsstring) \<Rightarrow>
     jsstring \<Rightarrow> int \<Rightarrow> PadVoicingPreset \<Rightarrow> int \<Rightarrow> VoicingOptions \<Rightarrow> VoicingResult option" where
  "buildPadVoicing chordGet midiFrom toNote chordSym centerOctave pre transposeShift opts =
     (case parseChordSymbol chordGet chordSym of
        None \<Rightarrow> None
      | Some p \<Rightarrow>
          (let m0 = presetMidis midiFrom p centerOctave pre (omit opts);
               m1 = (if m0 = [] then fallbackMidis midiFrom p centerOctave else m0);
               m2 = applyShift m1 transposeShift;
               ns = map toNote m2
           in Some \<lparr> chordSymbol = chordSym, preset = pre, midis = m2, v_notes = ns \<rparr>))"

section \<open>Roman numerals (lib/voicing.ts)\<close>

datatype KeyMode = mode_major | mode_minor

record KeySig =
  k_tonic :: jsstring
  mode :: KeyMode

definition DEGREE_ROMAN :: "jsstring list" where
  "DEGREE_ROMAN = map js [''I'', ''II'', ''III'', ''IV'', ''V'', ''VI'', ''VII'']"

definition degreeIntervals :: "KeyMode \<Rightarrow> int list" where
  "degreeIntervals md =
     (if md = mode_major then [0, 2, 4, 5, 7, 9, 11] else [0, 2, 3, 5, 7, 8, 10])"

definition accidentalPrefix :: "int \<Rightarrow> jsstring" where
  "accidentalPrefix delta =
     (if delta = - 2 then js ''bb''
      else if delta = - 1 then js ''b''
      else if delta = 1 then js ''#''
      else if delta = 2 then js ''##''
      else [])"

definition isSeventhChord :: "jsstring \<Rightarrow> bool" where
  "isSeventhChord symbol = (let s = toLowerCase symbol in includes_js s (js ''7''))"

definition isMaj7 :: "jsstring \<Rightarrow> bool" where
  "isMaj7 symbol =
     (let s = toLowerCase symbol
      in includes_js s (js ''maj7'') \<or> includes_js s (js ''ma7'')
           \<or> includes_js s (cuDelta # js ''7''))"

definition qualityToRomanCase :: "Quality \<Rightarrow> jsstring \<Rightarrow> jsstring \<Rightarrow> jsstring" where
  "qualityToRomanCase q base symbol =
     (let s = toLowerCase symbol;
          isHalfDim = (includes_js s (js ''m7b5'') \<or> includes_js s [cuOSlash]);
          isDim = (q = diminished \<or> includes_js s (js ''dim'') \<or> includes_js s (js ''o''));
          isAug = (q = augmented \<or> includes_js s (js ''+'') \<or> includes_js s (js ''aug''))
      in if isHalfDim then toLowerCase base @ [cuOSlash]
         else if isDim then toLowerCase base @ [cuDegree]
         else if isAug then toUpperCase base @ js ''+''
         else if q = minor then toLowerCase base
         else toUpperCase base)"

text \<open>One round of the loop over the seven degrees; the state is
  \<open>(bestIdx, bestDelta, bestScore)\<close>.\<close>

definition degreeStep :: "int \<Rightarrow> int list \<Rightarrow> nat \<times> int \<times> int \<Rightarrow> nat \<Rightarrow> nat \<times> int \<times> int" where
  "degreeStep diff baseInts st i =
     (case st of (bestIdx, bestDelta, bestScore) \<Rightarrow>
        (let base = baseInts ! i;
             deltaSigned = ((diff - base + 6) smod 12) - 6;
             score = \<bar>deltaSigned\<bar>
         in if score < bestScore then (i, deltaSigned, score)
            else (bestIdx, bestDelta, bestScore)))"

definition romanizeChord :: "(jsstring \<Rightarrow> TonalChord) \<Rightarrow> jsstring \<Rightarrow> KeySig \<Rightarrow> jsstring" where
  "romanizeChord chordGet chordSym key =
     (case parseChordSymbol chordGet chordSym of
        None \<Rightarrow> []
      | Some p \<Rightarrow>
          (let keySemi = pcToSemitone (k_tonic key);
               chordSemi = pcToSemitone (tonic p);
               diff = (chordSemi - keySemi + 12) smod 12;
               baseInts = degreeIntervals (mode key);
               (bestIdx, bestDelta, bestScore) =
                  foldl (degreeStep diff baseInts) (0, 0, 999) [0..<length baseInts];
               clipped = max (- 2) (min 2 bestDelta);
               acc = accidentalPrefix clipped;
               baseRoman = DEGREE_ROMAN ! bestIdx;
               romanWithQuality = qualityToRomanCase (qualityGuess p) baseRoman (core p);
               ext = (if isMaj7 (core p) then cuDelta # js ''7''
                      else if isSeventhChord (core p) then js ''7''
                      else [])
           in acc @ romanWithQuality @ ext))"

section \<open>Performance events (unnamed/part_001)\<close>

text \<open>
  Numbers of the settings are reals; \<open>None\<close> stands for a value that \<open>Number.isFinite\<close>
  rejects (\<open>NaN\<close>, an infinity, a missing field), and for the enumerations \<open>None\<close> is a
  missing field, which \<open>??\<close> replaces. Floating-point rounding is not modelled.
\<close>

datatype StrumDirection = dir_up | dir_down | dir_random
datatype PlayMode = chord | arp
datatype ArpPattern = pat_up | pat_down | pat_random | pat_1357

record PerformanceSettings =
  strumMs :: "real option"
  direction :: "StrumDirection option"
  playMode :: "PlayMode option"
  arpPattern :: "ArpPattern option"
  arpStepMs :: "real option"
  arpGate :: "real option"
  timingJitterMs :: "real option"
  velocityHumanize :: "real option"
  baseVelocity :: "real option"
  topBoost :: "real option"

record NoteEvent =
  ev_note :: jsstring
  ev_midi :: int
  ev_isTop :: bool
  delayMs :: real
  velocity :: real
  durSec :: real

record Item =
  it_note :: jsstring
  it_midi :: int
  it_isTop :: bool
  it_idx :: nat

definition clamp :: "real \<Rightarrow> real \<Rightarrow> real \<Rightarrow> real" where
  "clamp x lo hi = max lo (min hi x)"

definition clamp01 :: "real \<Rightarrow> real" where
  "clamp01 x = clamp x 0 1"

text \<open>
  \<open>Math.random\<close> is a sequence \<open>rnd\<close> of draws: \<open>rnd k\<close> is what the \<open>k\<close>-th call made during
  one \<open>buildNoteEvents\<close> returns. The functions that draw take \<open>rnd\<close> and the number of draws
  made so far. \<open>Math.random\<close> returns a value in \<open>[0, 1)\<close>, which is \<open>unitRandom\<close>.
\<close>

type_synonym rand = "nat \<Rightarrow> real"

definition unitRandom :: "rand \<Rightarrow> bool" where
  "unitRandom rnd = (\<forall>k. 0 \<le> rnd k \<and> rnd k < 1)"

definition randBetween :: "real \<Rightarrow> real \<Rightarrow> real \<Rightarrow> real" where
  "randBetween u mn mx = mn + u * (mx - mn)"

text \<open>The loop of \<open>shuffleInPlace\<close>, for \<open>i\<close> from \<open>arr.length - 1\<close> down to 1.\<close>

fun shuffleLoop :: "rand \<Rightarrow> nat \<Rightarrow> nat \<Rightarrow> 'a list \<Rightarrow> 'a list" where
  "shuffleLoop rnd k 0 arr = arr"
| "shuffleLoop rnd k (Suc i') arr =
     (let i = Suc i';
          j = nat \<lfloor>rnd k * real (i + 1)\<rfloor>;
          t = arr ! i;
          arr1 = arr[i := arr ! j];
          arr2 = arr1[j := t]
      in shuffleLoop rnd (k + 1) i' arr2)"

definition shuffleInPlace :: "rand \<Rightarrow> 'a list \<Rightarrow> 'a list" where
  "shuffleInPlace rnd arr = shuffleLoop rnd 0 (length arr - 1) arr"

text \<open>\<open>Array.prototype.sort\<close> is stable, as \<open>sort_key\<close> is.\<close>

definition orderForChord :: "rand \<Rightarrow> Item list \<Rightarrow> StrumDirection \<Rightarrow> Item list" where
  "orderForChord rnd items dir =
     (let ordered = sort_key it_midi items
      in if dir = dir_down then rev ordered
         else if dir = dir_random then shuffleInPlace rnd ordered
         else ordered)"

definition orderForArp :: "rand \<Rightarrow> Item list \<Rightarrow> ArpPattern \<Rightarrow> Item list" where
  "orderForArp rnd items pat =
     (if pat = pat_1357 then items
      else
        (let ordered = sort_key it_midi items
         in if pat = pat_down then rev ordered
            else if pat = pat_random then shuffleInPlace rnd ordered
            else ordered))"

record NormalizedPerf =
  n_strumMs :: real
  n_direction :: StrumDirection
  n_playMode :: PlayMode
  n_arpPattern :: ArpPattern
  n_arpStepMs :: real
  n_arpGate :: real
  n_timingJitterMs :: real
  n_velocityHumanize :: real
  n_baseVelocity :: real
  n_topBoost :: real

definition normalizePerf :: "PerformanceSettings \<Rightarrow> NormalizedPerf" where
  "normalizePerf perf =
     \<lparr> n_strumMs = max 0 (orElse (strumMs perf) 0),
       n_direction = orElse (direction perf) dir_up,
       n_playMode = orElse (playMode perf) chord,
       n_arpPattern = orElse (arpPattern perf) pat_up,
       n_arpStepMs = max 10 (orElse (arpStepMs perf) 90),
       n_arpGate = clamp (orElse (arpGate perf) 0.85) 0.1 1.0,
       n_timingJitterMs = max 0 (orElse (timingJitterMs perf) 0),
       n_velocityHumanize = max 0 (orElse (velocityHumanize perf) 0),
       n_baseVelocity = clamp (orElse (baseVelocity perf) 0.8) 0.05 1.0,
       n_topBoost = clamp (orElse (topBoost perf) 0) 0 1.0 \<rparr>"

text \<open>
  The final \<open>playOrder.map\<close>: \<open>idx\<close> is the position in the play order and \<open>k\<close> the number of
  draws made so far. Each event draws once for the jitter, when there is jitter, and then
  once for the velocity, when it is humanized.
\<close>

fun eventsLoop ::
  "rand \<Rightarrow> NormalizedPerf \<Rightarrow> real list \<Rightarrow> real \<Rightarrow> real \<Rightarrow> nat \<Rightarrow> nat \<Rightarrow> Item list \<Rightarrow> NoteEvent list" where
  "eventsLoop rnd p delays arpDurSec oneShot idx k [] = []"
| "eventsLoop rnd p delays arpDurSec oneShot idx k (it # its) =
     (let d0 = (if idx < length delays then delays ! idx else 0);
          jit = (n_timingJitterMs p > 0);
          d1 = (if jit then d0 + randBetween (rnd k) (- n_timingJitterMs p) (n_timingJitterMs p)
                else d0);
          k1 = (if jit then k + 1 else k);
          d = max 0 d1;
          v0 = n_baseVelocity p;
          hum = (n_velocityHumanize p > 0);
          v1 = (if hum
                then v0 * (1 + randBetween (rnd k1) (- n_velocityHumanize p) (n_velocityHumanize p))
                else v0);
          k2 = (if hum then k1 + 1 else k1);
          v2 = (if it_isTop it \<and> n_topBoost p > 0 then v1 * (1 + n_topBoost p) else v1)
      in \<lparr> ev_note = it_note it, ev_midi = it_midi it, ev_isTop = it_isTop it,
            delayMs = d, velocity = clamp01 v2,
            durSec = (if n_playMode p = arp then arpDurSec else oneShot) \<rparr>
         # eventsLoop rnd p delays arpDurSec oneShot (idx + 1) k2 its)"

text \<open>The draws of the shuffle come first: a list of \<open>n\<close> items takes \<open>n - 1\<close> of them.\<close>

definition shuffleDraws :: "NormalizedPerf \<Rightarrow> nat \<Rightarrow> nat" where
  "shuffleDraws p n =
     (if (n_playMode p = arp \<and> n_arpPattern p = pat_random)
         \<or> (n_playMode p \<noteq> arp \<and> n_direction p = dir_random)
      then n - 1 else 0)"

definition buildNoteEvents ::
  "rand \<Rightarrow> jsstring list \<Rightarrow> int list \<Rightarrow> PerformanceSettings \<Rightarrow> real \<Rightarrow> NoteEvent list" where
  "buildNoteEvents rnd nts mds perf oneShotDurSec =
     (if nts = [] \<or> length nts \<noteq> length mds then []
      else
        (let p = normalizePerf perf;
             oneShot = clamp oneShotDurSec 0.05 10;
             topMidi = Max (set mds);
             items = map (\<lambda>i. \<lparr> it_note = nts ! i, it_midi = mds ! i,
                                  it_isTop = (mds ! i = topMidi), it_idx = i \<rparr>) [0..<length nts];
             playOrder = (if n_playMode p = arp then orderForArp rnd items (n_arpPattern p)
                          else orderForChord rnd items (n_direction p));
             n = length playOrder;
             delays = (if n_playMode p = arp
                       then (let step = n_arpStepMs p in map (\<lambda>i. real i * step) [0..<n])
                       else (let total = n_strumMs p;
                                 step = (if n \<le> 1 then 0 else total / real (n - 1))
                             in map (\<lambda>i. real i * step) [0..<n]));
             arpStepSec = (if n_playMode p = arp then n_arpStepMs p / 1000 else 0);
             arpDurSec = min oneShot (max 0.05 (arpStepSec * n_arpGate p))
         in eventsLoop rnd p delays arpDurSec oneShot 0 (shuffleDraws p n) playOrder))"

section \<open>Holds (unnamed/part_000, the page component)\<close>

text \<open>
  The page keeps its holds in mutable references: \<open>activeHoldRef\<close> and \<open>holdMidisRef\<close> are
  records indexed by pad index, modelled as maps. Tone.js is not part of the repository:
  its state is the field \<open>engine\<close> of an arbitrary type, and the calls the two handlers make
  are the fields of \<open>Tone\<close>, taken as an argument. An attack is the note, the delay in
  seconds and the velocity given to \<open>scheduleOnce\<close>, which returns the id of the callback.
\<close>

record HoldState =
  h_notes :: "jsstring list"
  scheduleIds :: "nat list"

record PadModel =
  pm_idx :: nat
  pm_chord :: jsstring
  pm_roman :: jsstring
  pm_preset :: PadVoicingPreset
  pm_notes :: "jsstring list"
  pm_midis :: "int list"
  pm_ok :: bool
  pm_omit :: "OmitFlags option"

record LogRow =
  lr_t :: jsstring
  lr_chord :: jsstring
  lr_roman :: jsstring
  lr_preset :: PadVoicingPreset
  lr_notes :: "jsstring list"
  lr_midis :: "int list"
  lr_shift :: int
  lr_perf :: PerformanceSettings

type_synonym attack = "jsstring \<times> real \<times> real"

record 'e Tone =
  toneStart :: "'e \<Rightarrow> 'e"
  scheduleOnce :: "attack \<Rightarrow> 'e \<Rightarrow> nat \<times> 'e"
  transportClear :: "nat \<Rightarrow> 'e \<Rightarrow> 'e"
  triggerRelease :: "jsstring list \<Rightarrow> 'e \<Rightarrow> 'e"

record 'e Page =
  padModels :: "PadModel list"
  perfCur :: PerformanceSettings
  shiftCur :: int
  activeHold :: "nat \<rightharpoonup> HoldState"
  holdMidis :: "nat \<rightharpoonup> int list"
  rafSync :: bool
  guidePadIdx :: nat
  logs :: "LogRow list"
  synthReady :: bool
  audioReady :: bool
  engine :: 'e

text \<open>\<open>requestSyncActiveMidis\<close> asks for one animation frame unless one is already asked for;
  what the frame does later is not part of the two handlers.\<close>

definition requestSyncActiveMidis :: "'e Page \<Rightarrow> 'e Page" where
  "requestSyncActiveMidis s = (if rafSync s then s else s\<lparr>rafSync := True\<rparr>)"

text \<open>\<open>ensureAudioReady\<close>: \<open>Tone.start()\<close>, the synth created once, the transport started;
  all that happens inside Tone.js is \<open>toneStart\<close>.\<close>

definition ensureAudioReady :: "'e Tone \<Rightarrow> 'e Page \<Rightarrow> 'e Page" where
  "ensureAudioReady T s =
     s\<lparr>engine := toneStart T (engine s), synthReady := True, audioReady := True\<rparr>"

definition pushLog :: "LogRow \<Rightarrow> 'e Page \<Rightarrow> 'e Page" where
  "pushLog row s = s\<lparr>logs := take 200 (row # logs s)\<rparr>"

definition stopHoldByIndex :: "'e Tone \<Rightarrow> nat \<Rightarrow> 'e Page \<Rightarrow> 'e Page" where
  "stopHoldByIndex T idx s =
     (case activeHold s idx of
        None \<Rightarrow> s
      | Some h \<Rightarrow>
          (let e1 = fold (transportClear T) (scheduleIds h) (engine s);
               e2 = (if synthReady s then triggerRelease T (h_notes h) e1 else e1);
               s1 = s\<lparr>engine := e2, activeHold := (activeHold s)(idx := None),
                       holdMidis := (holdMidis s)(idx := None)\<rparr>
           in requestSyncActiveMidis s1))"

text \<open>The loop over the events: the state is \<open>(scheduleIds, notesToRelease, engine)\<close>.\<close>

fun scheduleEvents ::
  "'e Tone \<Rightarrow> NoteEvent list \<Rightarrow> nat list \<times> jsstring list \<times> 'e \<Rightarrow> nat list \<times> jsstring list \<times> 'e" where
  "scheduleEvents T [] st = st"
| "scheduleEvents T (ev # evs) (ids, ntr, e) =
     (let ntr1 = ntr @ [ev_note ev];
          delaySec = max 0 (delayMs ev) / 1000;
          (i, e1) = scheduleOnce T (ev_note ev, delaySec, velocity ev) e
      in scheduleEvents T evs (ids @ [i], ntr1, e1))"

text \<open>
  \<open>startHoldByIndex\<close> is asynchronous: it runs up to \<open>await ensureAudioReady()\<close>, where other
  handlers may run, and resumes afterwards with the pad \<open>p\<close> it read at the start.
  \<open>startHold_enter\<close> is the part before the \<open>await\<close>: \<open>None\<close> when the handler has returned,
  leaving the state as it was, and otherwise the pad and the state at the \<open>await\<close>.
  \<open>startHold_resume\<close> is the rest; \<open>rnd\<close> are the draws of its \<open>buildNoteEvents\<close> and \<open>now\<close>
  is the time string of the log row. \<open>startHoldByIndex\<close> is a run that nothing interrupts;
  \<open>startHold_overlapped\<close> is two presses on the same index that overlap: the second handler
  is entered while the first is suspended at its \<open>await\<close>, then the first resumes, then the
  second.
\<close>

definition startHold_enter :: "nat \<Rightarrow> 'e Page \<Rightarrow> (PadModel \<times> 'e Page) option" where
  "startHold_enter idx s =
     (if idx < length (padModels s) then
        (let p = padModels s ! idx
         in if \<not> pm_ok p \<or> pm_notes p = [] then None
            else if activeHold s idx \<noteq> None then None
            else Some (p, s\<lparr>guidePadIdx := idx\<rparr>))
      else None)"

definition startHold_resume ::
  "'e Tone \<Rightarrow> rand \<Rightarrow> jsstring \<Rightarrow> nat \<Rightarrow> PadModel \<Rightarrow> 'e Page \<Rightarrow> 'e Page" where
  "startHold_resume T rnd now idx p s =
     (let s1 = ensureAudioReady T s;
          s2 = requestSyncActiveMidis (s1\<lparr>holdMidis := (holdMidis s1)(idx \<mapsto> pm_midis p)\<rparr>);
          events = buildNoteEvents rnd (pm_notes p) (pm_midis p) (perfCur s2) 0.9;
          (ids, notesToRelease, e) = scheduleEvents T events ([], [], engine s2);
          s3 = s2\<lparr>engine := e,
                  activeHold := (activeHold s2)(idx \<mapsto> \<lparr>h_notes = notesToRelease, scheduleIds = ids\<rparr>)\<rparr>
      in pushLog \<lparr> lr_t = now, lr_chord = pm_chord p, lr_roman = pm_roman p,
                   lr_preset = pm_preset p, lr_notes = pm_notes p, lr_midis = pm_midis p,
                   lr_shift = shiftCur s3, lr_perf = perfCur s3 \<rparr> s3)"

definition startHoldByIndex ::
  "'e Tone \<Rightarrow> rand \<Rightarrow> jsstring \<Rightarrow> nat \<Rightarrow> 'e Page \<Rightarrow> 'e Page" where
  "startHoldByIndex T rnd now idx s =
     (case startHold_enter idx s of
        None \<Rightarrow> s
      | Some (p, s1) \<Rightarrow> startHold_resume T rnd now idx p s1)"

definition startHold_overlapped ::
  "'e Tone \<Rightarrow> rand \<Rightarrow> rand \<Rightarrow> jsstring \<Rightarrow> jsstring \<Rightarrow> nat \<Rightarrow> 'e Page \<Rightarrow> 'e Page" where
  "startHold_overlapped T rnd1 rnd2 now1 now2 idx s =
     (case startHold_enter idx s of
        None \<Rightarrow> s
      | Some (p1, s1) \<Rightarrow>
          (case startHold_enter idx s1 of
             None \<Rightarrow> startHold_resume T rnd1 now1 idx p1 s1
           | Some (p2, s2) \<Rightarrow>
               startHold_resume T rnd2 now2 idx p2 (startHold_resume T rnd1 now1 idx p1 s2)))"

text \<open>
  Names for what \<open>buildNoteEvents\<close> computes on the way: its \<open>items\<close>, its \<open>playOrder\<close>, and
  the part of an item and of an event that the ordering carries over unchanged.
\<close>

definition mkItems :: "jsstring list \<Rightarrow> int list \<Rightarrow> Item list" where
  "mkItems nts mds = map (\<lambda>i. \<lparr> it_note = nts ! i, it_midi = mds ! i,
       it_isTop = (mds ! i = Max (set mds)), it_idx = i \<rparr>) [0..<length nts]"

definition playOrderOf :: "rand \<Rightarrow> NormalizedPerf \<Rightarrow> Item list \<Rightarrow> Item list" where
  "playOrderOf rnd p items =
     (if n_playMode p = arp then orderForArp rnd items (n_arpPattern p)
      else orderForChord rnd items (n_direction p))"

definition evKey :: "NoteEvent \<Rightarrow> jsstring \<times> int \<times> bool" where
  "evKey e = (ev_note e, ev_midi e, ev_isTop e)"

definition itKey :: "Item \<Rightarrow> jsstring \<times> int \<times> bool" where
  "itKey it = (it_note it, it_midi it, it_isTop it)"

section \<open>Sample collaborators\<close>

text \<open>
  Stand-ins for tonal and Tone.js, used only to run the functions above on concrete
  inputs: a lookup that knows a few chords and answers every other symbol with the empty
  tonic, scientific pitch numbering (\<open>C4 = 60\<close>, with the sharps and flats of a note name
  counted from its letter in the octave named, so that \<open>Cb4 = 59\<close> and \<open>B#3 = 60\<close>), and sharp
  note names with a one-digit octave.
\<close>

definition sampleChord :: "string \<Rightarrow> string list \<Rightarrow> string \<Rightarrow> TonalChord" where
  "sampleChord t ns q = \<lparr> c_tonic = Some (js t), c_notes = map js ns, c_quality = Some (js q) \<rparr>"

definition sampleChordGet :: "jsstring \<Rightarrow> TonalChord" where
  "sampleChordGet name =
     (if name = js ''C'' then sampleChord ''C'' [''C'', ''E'', ''G''] ''Major''
      else if name = js ''F'' then sampleChord ''F'' [''F'', ''A'', ''C''] ''Major''
      else if name = js ''Cm7'' then sampleChord ''C'' [''C'', ''Eb'', ''G'', ''Bb''] ''Minor''
      else if name = js ''Cmaj7'' then sampleChord ''C'' [''C'', ''E'', ''G'', ''B''] ''Major''
      else if name = js ''C-'' @ [cuDelta] @ js ''7''
        then sampleChord ''C'' [''C'', ''Eb'', ''G'', ''B''] ''Minor''
      else \<lparr> c_tonic = Some [], c_notes = [], c_quality = Some (js ''Unknown'') \<rparr>)"

definition sampleMidiFrom :: midiFromT where
  "sampleMidiFrom pc oct =
     (let s = normalizePc pc;
          base = orElse (LETTER_BASE (charAt0 s)) 0;
          delta = accDelta (slice1 s) 0
      in 12 * (oct + 1) + base + delta)"

definition sampleToNote :: "int \<Rightarrow> jsstring" where
  "sampleToNote m =
     map js [''C'', ''C#'', ''D'', ''D#'', ''E'', ''F'', ''F#'', ''G'', ''G#'', ''A'', ''A#'', ''B'']
       ! nat (m mod 12) @ [48 + nat (m div 12 - 1)]"

text \<open>What the sample lookup parses \<open>Cmaj7\<close> and \<open>C\<close> to, and the omit flags that drop
  every voice.\<close>

definition pCmaj7 :: Parsed where
  "pCmaj7 = \<lparr>core = js ''Cmaj7'', slashBass = None, tonic = js ''C'',
      p_notes = map js [''C'', ''E'', ''G'', ''B''], qualityGuess = major\<rparr>"

definition pC :: Parsed where
  "pC = \<lparr>core = js ''C'', slashBass = None, tonic = js ''C'',
      p_notes = map js [''C'', ''E'', ''G''], qualityGuess = major\<rparr>"

definition omitAll :: OmitFlags where
  "omitAll = \<lparr>root = True, third = True, fifth = True, seventh = True\<rparr>"

text \<open>The symbol \<open>C-\<Delta>7\<close>, which tonal lists among the names of the minor/major seventh
  chord, and the key of C major.\<close>

definition symMinMaj7 :: jsstring where
  "symMinMaj7 = js ''C-'' @ [cuDelta] @ js ''7''"

definition keyC :: KeySig where
  "keyC = \<lparr>k_tonic = js ''C'', mode = mode_major\<rparr>"

text \<open>Settings for a block chord without strum, jitter or boost, settings for the arpeggio
  pattern \<open>1357\<close> without jitter, and a random source that always draws 0.\<close>

definition perfPlain :: PerformanceSettings where
  "perfPlain = \<lparr> strumMs = Some 0, direction = Some dir_up, playMode = Some chord,
      arpPattern = Some pat_up, arpStepMs = Some 90, arpGate = Some 0.85,
      timingJitterMs = Some 0, velocityHumanize = Some 0, baseVelocity = Some 0.75,
      topBoost = Some 0 \<rparr>"

definition rndZero :: rand where "rndZero = (\<lambda>k. 0)"

definition perfArp :: "real \<Rightarrow> PerformanceSettings" where
  "perfArp step = \<lparr> strumMs = Some 20, direction = Some dir_up, playMode = Some arp,
      arpPattern = Some pat_1357, arpStepMs = Some step, arpGate = Some 0.85,
      timingJitterMs = Some 0, velocityHumanize = Some 0, baseVelocity = Some 0.75,
      topBoost = Some 0.18 \<rparr>"

text \<open>A sample engine: the next id and the pending callbacks, each with its id.\<close>

type_synonym sampleEngine = "nat \<times> (nat \<times> attack) list"

definition sampleTone :: "sampleEngine Tone" where
  "sampleTone = \<lparr> toneStart = (\<lambda>e. e),
       scheduleOnce = (\<lambda>a (n, ps). (n, (Suc n, ps @ [(n, a)]))),
       transportClear = (\<lambda>i (n, ps). (n, filter (\<lambda>(k, a). k \<noteq> i) ps)),
       triggerRelease = (\<lambda>ns e. e) \<rparr>"

text \<open>A page with two playable pads and no hold, the page after a hold was started on
  pad 0, and the page after two overlapping presses on pad 0.\<close>

definition samplePad :: PadModel where
  "samplePad = \<lparr> pm_idx = 0, pm_chord = js ''C'', pm_roman = js ''I'',
       pm_preset = PAD_TRIAD_BASS_35R, pm_notes = [js ''C4'', js ''E4'', js ''G4''],
       pm_midis = [60, 64, 67], pm_ok = True, pm_omit = None \<rparr>"

definition pageIdle :: "sampleEngine Page" where
  "pageIdle = \<lparr> padModels = [samplePad, samplePad\<lparr>pm_idx := 1\<rparr>], perfCur = perfPlain, shiftCur = 0,
       activeHold = Map.empty, holdMidis = Map.empty, rafSync = False, guidePadIdx = 0,
       logs = [], synthReady = False, audioReady = False, engine = (0, []) \<rparr>"

definition pageHeld :: "sampleEngine Page" where
  "pageHeld = startHoldByIndex sampleTone rndZero (js ''12:00:00'') 0 pageIdle"

definition pageOverlap :: "sampleEngine Page" where
  "pageOverlap =
     startHold_overlapped sampleTone rndZero rndZero (js ''12:00:00'') (js ''12:00:00'') 0 pageIdle"

section \<open>Properties\<close>

lemmas js_eval = js_def trim_def isSpace_def isLineTerminator_def charAt0_def slice1_def
  toUpperCase_def upperCU_def toLowerCase_def lowerCU_def cuFlat_def cuSharp_def cuDelta_def
  cuDeltaSmall_def cuOSlash_def cuDegree_def normalizePc_def LETTER_BASE_def

lemma smod_12_bounds: "- 12 < (k::int) smod 12 \<and> k smod 12 < 12"
  by (cases "k < 0") (simp_all add: signed_modulo_int_def sgn_if abs_if, presburger+)

lemma smod_12_nonneg: "0 \<le> (k::int) \<Longrightarrow> k smod 12 = k mod 12"
  by (simp add: signed_modulo_int_def sgn_if)

lemma pcToSemitone_range: "0 \<le> pcToSemitone pc \<and> pcToSemitone pc < 12"
  using smod_12_bounds [of "(case LETTER_BASE (charAt0 (normalizePc pc)) of Some b \<Rightarrow> b | None \<Rightarrow> 0)
      + accDelta (slice1 (normalizePc pc)) 0"]
  by (simp add: pcToSemitone_def Let_def)

subsection \<open>Crowding resolution\<close>

lemma map2_index_from:
  "0 < k \<Longrightarrow> map2 (\<lambda>m i. if i = 0 then m else m + d) xs [k..<k + length xs] = map (\<lambda>m. m + (d::int)) xs"
proof (induction xs arbitrary: k)
  case Nil
  then show ?case by simp
next
  case (Cons x xs)
  have "[k..<k + length (x # xs)] = k # [Suc k..<k + length (x # xs)]"
    by (rule upt_conv_Cons) simp
  then show ?case using Cons.IH [of "Suc k"] Cons.prems by simp
qed

lemma map2_index_Cons:
  "map2 (\<lambda>m i. if i = 0 then m else m + d) (x # xs) [0..<length (x # xs)] = x # map (\<lambda>m. m + (d::int)) xs"
proof -
  have "[0..<length (x # xs)] = 0 # [Suc 0..<length (x # xs)]"
    by (rule upt_conv_Cons) simp
  then show ?thesis using map2_index_from [of "Suc 0" d xs] by simp
qed

lemma ceil12: "\<lceil>real_of_int k / 12\<rceil> = - ((- k) div 12)"
proof -
  have "\<lfloor>real_of_int (- k) / real_of_int 12\<rfloor> = (- k) div 12"
    by (rule floor_divide_of_int_eq)
  then show ?thesis by (simp add: ceiling_def)
qed

lemma sort_Cons_ex: "xs \<noteq> [] \<Longrightarrow> \<exists>y ys. sort xs = y # (ys::int list)"
proof -
  assume "xs \<noteq> []"
  then have "length (sort xs) \<noteq> 0" by simp
  then show ?thesis by (cases "sort xs") auto
qed

lemma clampLowMud_raise:
  assumes "2 \<le> length ms" "topMin ms < minTop"
  shows "clampLowMud ms minTop =
     hd (sort ms) # map (\<lambda>m. m + 12 * (- ((topMin ms - minTop) div 12))) (tl (sort ms))"
proof -
  define d where "d = 12 * \<lceil>real_of_int (minTop - topMin ms) / 12\<rceil>"
  have dd: "d = 12 * (- ((topMin ms - minTop) div 12))"
    unfolding d_def ceil12 by simp
  have "ms \<noteq> []" using assms(1) by auto
  then obtain x xs where s: "sort ms = x # xs"
    using sort_Cons_ex by blast
  have c: "clampLowMud ms minTop =
      map2 (\<lambda>m i. if i = 0 then m else m + d) (sort ms) [0..<length (sort ms)]"
    unfolding d_def using assms by (simp add: clampLowMud_def Let_def del: of_int_diff)
  have "map2 (\<lambda>m i. if i = 0 then m else m + d) (sort ms) [0..<length (sort ms)]
      = x # map (\<lambda>m. m + d) xs"
    unfolding s by (rule map2_index_Cons)
  with c show ?thesis by (simp add: dd s)
qed

lemma clampLowMud_length: "length (clampLowMud ms minTop) = length ms"
  by (simp add: clampLowMud_def Let_def)

lemma delta_pos: "(t::int) < m \<Longrightarrow> 12 \<le> 12 * (- ((t - m) div 12))"
  by presburger

lemma sorted_add: "sorted xs \<Longrightarrow> sorted (map (\<lambda>m. m + (d::int)) xs)"
  by (induction xs) auto

lemma sorted_raise:
  assumes "sorted (x # xs)" "0 \<le> (d::int)"
  shows "sorted (x # map (\<lambda>m. m + d) xs)"
proof -
  have "\<forall>y\<in>set xs. x \<le> y + d" using assms by force
  moreover have "sorted (map (\<lambda>m. m + d) xs)" using assms(1) sorted_add by simp
  ultimately show ?thesis by simp
qed

lemma clampLowMud_sorted: "sorted (clampLowMud ms minTop)"
proof (cases "length ms < 2")
  case True
  then have "ms = [] \<or> (\<exists>x. ms = [x])"
    by (cases ms) (auto simp: less_Suc_eq)
  then show ?thesis using True by (auto simp: clampLowMud_def)
next
  case False
  show ?thesis
  proof (cases "topMin ms \<ge> minTop")
    case True
    then show ?thesis using False by (simp add: clampLowMud_def Let_def)
  next
    case ge: False
    have two: "2 \<le> length ms" using False by simp
    have lt: "topMin ms < minTop" using ge by simp
    have "ms \<noteq> []" using two by auto
    then obtain x xs where s: "sort ms = x # xs" using sort_Cons_ex by blast
    define d where "d = 12 * (- ((topMin ms - minTop) div 12))"
    have c: "clampLowMud ms minTop = x # map (\<lambda>m. m + d) xs"
      using clampLowMud_raise [OF two lt] by (simp add: s d_def)
    have dpos: "0 \<le> d" using delta_pos [OF lt] by (simp add: d_def)
    have "sorted (x # xs)" using s sorted_sort [of ms] by simp
    then have "sorted (x # map (\<lambda>m. m + d) xs)" using dpos by (rule sorted_raise)
    then show ?thesis using c by simp
  qed
qed

lemma Min_sort_hd: "sort xs = y # ys \<Longrightarrow> Min (set xs) = (y::int)"
proof -
  assume s: "sort xs = y # ys"
  have "sorted (y # ys)" using s sorted_sort [of xs] by simp
  then have "\<forall>z\<in>set (y # ys). y \<le> z" by auto
  moreover have "set xs = set (y # ys)" using s by (metis set_sort)
  ultimately show ?thesis by (auto intro!: Min_eqI)
qed

lemma clampLowMud_Min:
  assumes "ms \<noteq> []"
  shows "Min (set (clampLowMud ms minTop)) = Min (set ms)"
proof (cases "length ms < 2")
  case True
  then show ?thesis by (simp add: clampLowMud_def)
next
  case False
  obtain x xs where s: "sort ms = x # xs" using assms sort_Cons_ex by blast
  have m: "Min (set ms) = x" using s by (rule Min_sort_hd)
  show ?thesis
  proof (cases "topMin ms \<ge> minTop")
    case True
    then have "clampLowMud ms minTop = sort ms" using False by (simp add: clampLowMud_def Let_def)
    then show ?thesis by simp
  next
    case ge: False
    have two: "2 \<le> length ms" using False by simp
    have lt: "topMin ms < minTop" using ge by simp
    define d where "d = 12 * (- ((topMin ms - minTop) div 12))"
    have c: "clampLowMud ms minTop = x # map (\<lambda>m. m + d) xs"
      using clampLowMud_raise [OF two lt] by (simp add: s d_def)
    have dpos: "0 \<le> d" using delta_pos [OF lt] by (simp add: d_def)
    have "sorted (x # xs)" using s sorted_sort [of ms] by simp
    then have "\<forall>z\<in>set xs. x \<le> z + d" using dpos by force
    then have "Min (set (x # map (\<lambda>m. m + d) xs)) = x"
      by (auto intro!: Min_eqI)
    then show ?thesis using c m by simp
  qed
qed

subsection \<open>Intervals, drops and crowding\<close>

text \<open>
  C8. For all pitch-class strings \<open>a\<close> and \<open>b\<close>, \<open>signedSemitoneDiff a b\<close> lies in
  \<open>[-6, 5]\<close>; it is the distance \<open>(semitoneOf b - semitoneOf a) mod 12\<close>, less 12 when that
  distance exceeds 5; and \<open>signedSemitoneDiff a a = 0\<close>.
\<close>

theorem signedSemitoneDiff_range:
  "- 6 \<le> signedSemitoneDiff a b \<and> signedSemitoneDiff a b \<le> 5
   \<and> signedSemitoneDiff a b =
       (let d = (pcToSemitone b - pcToSemitone a) mod 12 in if d > 5 then d - 12 else d)
   \<and> signedSemitoneDiff a a = 0"
proof -
  define d where "d = (pcToSemitone b - pcToSemitone a) mod 12"
  have dr: "0 \<le> d \<and> d < 12" by (simp add: d_def)
  have pos: "0 \<le> pcToSemitone b - pcToSemitone a + 12"
    using pcToSemitone_range [of a] pcToSemitone_range [of b] by linarith
  have d1: "(pcToSemitone b - pcToSemitone a + 12) smod 12 = d"
    using pos by (simp add: smod_12_nonneg d_def)
  have s: "signedSemitoneDiff a b = ((d + 6) mod 12) - 6"
    using dr by (simp add: signedSemitoneDiff_def Let_def d1 smod_12_nonneg)
  have c: "((d + 6) mod 12) - 6 = (if d > 5 then d - 12 else d)"
    using dr by presburger
  have z: "signedSemitoneDiff a a = 0"
    by (simp add: signedSemitoneDiff_def Let_def signed_modulo_int_def)
  have r: "- 6 \<le> (if d > 5 then d - 12 else d) \<and> (if d > 5 then d - 12 else d) \<le> 5"
    using dr by auto
  show ?thesis
    using s c z r by (simp add: Let_def d_def)
qed

text \<open>
  C5. For a strictly ascending closed stack \<open>[c0, c1, c2, c3]\<close> the drop-2 reordering is, as a
  set, \<open>{c0, c1, c2 - 12, c3}\<close>, and it is sorted again; a list whose length is not 4 is
  returned unchanged by \<open>applyDrop\<close>, whatever the drop kind.
\<close>
theorem applyDrop_drop2_set:
  "(c0 < c1 \<and> c1 < c2 \<and> c2 < c3 \<longrightarrow>
      set (applyDrop [c0, c1, c2, c3] drop2) = {c0, c1, c2 - 12, c3}
      \<and> sorted (applyDrop [c0, c1, c2, c3] drop2))
   \<and> (length xs \<noteq> 4 \<longrightarrow> applyDrop xs kind = xs)"
proof -
  have e: "applyDrop [c0, c1, c2, c3] drop2 = sort [c0, c1, c2 - 12, c3]"
    by (simp add: applyDrop_def Let_def)
  have s: "set (applyDrop [c0, c1, c2, c3] drop2) = {c0, c1, c2 - 12, c3}"
    unfolding e by (simp only: set_sort) simp
  have t: "sorted (applyDrop [c0, c1, c2, c3] drop2)"
    unfolding e by (rule sorted_sort)
  have u: "length xs \<noteq> 4 \<longrightarrow> applyDrop xs kind = xs"
    by (simp add: applyDrop_def)
  show ?thesis using s t u by blast
qed

theorem applyDrop_drop2_set_witness:
  "(60::int) < 64 \<and> (64::int) < 67 \<and> (67::int) < 71
   \<and> applyDrop [60, 64, 67, 71] drop2 = [55, 60, 64, 71]
   \<and> set (applyDrop [60, 64, 67, 71] drop2) = {60, 64, 67 - 12, 71}
   \<and> length [60, 64, 67::int] \<noteq> 4 \<and> applyDrop [60, 64, 67] drop2 = [60, 64, 67]"
  using applyDrop_drop2_set [of 60 64 67 71 "[60, 64, 67]" drop2]
  by (simp add: applyDrop_def Let_def)

text \<open>
  C6. \<open>clampLowMud\<close> never changes the lowest pitch: the minimum of its output is the minimum
  of its input. When the minimum of the three highest pitches is below the floor, every
  pitch but the lowest is raised by \<open>12 * k\<close>, where \<open>k\<close> is the least integer for which that
  minimum plus \<open>12 * k\<close> reaches the floor. A list with fewer than two pitches is returned
  as it is.
\<close>
theorem clampLowMud_keeps_bass:
  "(ms \<noteq> [] \<longrightarrow> Min (set (clampLowMud ms minTop)) = Min (set ms))
   \<and> (2 \<le> length ms \<and> topMin ms < minTop \<longrightarrow>
        (\<exists>k. clampLowMud ms minTop = hd (sort ms) # map (\<lambda>m. m + 12 * k) (tl (sort ms))
           \<and> minTop \<le> topMin ms + 12 * k
           \<and> (\<forall>j. minTop \<le> topMin ms + 12 * j \<longrightarrow> k \<le> j)))
   \<and> (length ms < 2 \<longrightarrow> clampLowMud ms minTop = ms)"
proof (intro conjI impI)
  assume "ms \<noteq> []"
  then show "Min (set (clampLowMud ms minTop)) = Min (set ms)" by (rule clampLowMud_Min)
next
  assume a: "2 \<le> length ms \<and> topMin ms < minTop"
  define k where "k = - ((topMin ms - minTop) div 12)"
  have "clampLowMud ms minTop = hd (sort ms) # map (\<lambda>m. m + 12 * k) (tl (sort ms))"
    using a clampLowMud_raise [of ms minTop] by (simp add: k_def)
  moreover have "minTop \<le> topMin ms + 12 * k" unfolding k_def by presburger
  moreover have "\<forall>j. minTop \<le> topMin ms + 12 * j \<longrightarrow> k \<le> j" unfolding k_def by presburger
  ultimately show "\<exists>k. clampLowMud ms minTop = hd (sort ms) # map (\<lambda>m. m + 12 * k) (tl (sort ms))
           \<and> minTop \<le> topMin ms + 12 * k
           \<and> (\<forall>j. minTop \<le> topMin ms + 12 * j \<longrightarrow> k \<le> j)" by blast
next
  assume "length ms < 2"
  then show "clampLowMud ms minTop = ms" by (simp add: clampLowMud_def)
qed

lemma topMin_ex: "topMin [40, 52, 43, 47] = 43"
  by (simp add: topMin_def Let_def)

theorem clampLowMud_keeps_bass_witness:
  "[40, 52, 43, 47::int] \<noteq> [] \<and> 2 \<le> length [40, 52, 43, 47::int] \<and> topMin [40, 52, 43, 47] < 55
   \<and> Min (set (clampLowMud [40, 52, 43, 47] 55)) = 40
   \<and> clampLowMud [40, 52, 43, 47] 55 = [40, 55, 59, 64]
   \<and> (\<exists>k. clampLowMud [40, 52, 43, 47] 55 = 40 # map (\<lambda>m. m + 12 * k) [43, 47, 52]
          \<and> 55 \<le> 43 + 12 * k \<and> (\<forall>j. 55 \<le> 43 + 12 * j \<longrightarrow> k \<le> j))"
proof -
  have e: "clampLowMud [40, 52, 43, 47] 55 = [40, 55, 59, 64]"
    by (simp add: clampLowMud_def Let_def topMin_ex ceil12 upt_conv_Cons)
  have s: "sort [40, 52, 43, 47::int] = [40, 43, 47, 52]" by simp
  show ?thesis
    using clampLowMud_keeps_bass [of "[40, 52, 43, 47]" 55]
    by (simp add: topMin_ex s) (simp add: e)
qed

subsection \<open>The voicing builder\<close>

lemma presetMidis_sorted: "sorted (presetMidis midiFrom p centerOctave pre om)"
  by (cases pre) (simp_all add: presetMidis_def Let_def clampLowMud_sorted)

lemma applyShift_map: "applyShift ms shift = map (\<lambda>m. m + shift) ms"
  by (simp add: applyShift_def)

lemma premidis_sorted:
  "sorted (if presetMidis midiFrom p c pre om = [] then fallbackMidis midiFrom p c
           else presetMidis midiFrom p c pre om)"
  by (simp add: presetMidis_sorted fallbackMidis_def Let_def)

lemmas split_eval = splitSlash_def matchTail_def matchBass_def isBassLetter_def Let_def

lemmas voicing_eval = presetMidis_def pcs1357_def pushIf_def omitOk_def orElse_def
  rootPc_def thirdPc_def fifthPc_def seventhPc_def ninthPc_def thirteenthPc_def toneAt_def
  buildClosedFromPcs_def nearestAbove_def applyDrop_def clampLowMud_def topMin_def ceil12
  applyShift_def fallbackMidis_def Let_def

lemma sampleMidiFrom_C: "sampleMidiFrom (js ''C'') oct = 12 * (oct + 1)"
  by (simp add: sampleMidiFrom_def orElse_def js_eval Let_def)
lemma sampleMidiFrom_E: "sampleMidiFrom (js ''E'') oct = 12 * (oct + 1) + 4"
  by (simp add: sampleMidiFrom_def orElse_def js_eval Let_def)
lemma sampleMidiFrom_G: "sampleMidiFrom (js ''G'') oct = 12 * (oct + 1) + 7"
  by (simp add: sampleMidiFrom_def orElse_def js_eval Let_def)
lemma sampleMidiFrom_B: "sampleMidiFrom (js ''B'') oct = 12 * (oct + 1) + 11"
  by (simp add: sampleMidiFrom_def orElse_def js_eval Let_def)

lemma splitSlash_Cmaj7: "splitSlash (js ''Cmaj7'') = (js ''Cmaj7'', None)"
  by (simp add: js_eval split_eval)

lemma splitSlash_C: "splitSlash (js ''C'') = (js ''C'', None)"
  by (simp add: js_eval split_eval)

lemma splitSlash_H: "splitSlash (js ''H'') = (js ''H'', None)"
  by (simp add: js_eval split_eval)

lemma parse_Cmaj7: "parseChordSymbol sampleChordGet (js ''Cmaj7'') = Some pCmaj7"
  unfolding parseChordSymbol_def splitSlash_Cmaj7 pCmaj7_def
  by (simp add: sampleChordGet_def sampleChord_def guessQuality_def js_eval)

lemma parse_C: "parseChordSymbol sampleChordGet (js ''C'') = Some pC"
  unfolding parseChordSymbol_def splitSlash_C pC_def
  by (simp add: sampleChordGet_def sampleChord_def guessQuality_def js_eval)

lemma parse_H: "parseChordSymbol sampleChordGet (js ''H'') = None"
  unfolding parseChordSymbol_def splitSlash_H
  by (simp add: sampleChordGet_def sampleChord_def js_eval)

lemma preset_Cmaj7: "presetMidis sampleMidiFrom pCmaj7 5 DROP2_1357_NO_BASS None = [55, 60, 64, 71]"
  by (simp add: pCmaj7_def voicing_eval sampleMidiFrom_C sampleMidiFrom_E sampleMidiFrom_G sampleMidiFrom_B)

lemma preset_C_omitted: "presetMidis sampleMidiFrom pC c DROP2_1357_NO_BASS (Some omitAll) = []"
  by (simp add: pC_def omitAll_def voicing_eval)

lemma build_Cmaj7:
  "buildPadVoicing sampleChordGet sampleMidiFrom sampleToNote (js ''Cmaj7'') 5 DROP2_1357_NO_BASS sh \<lparr>omit = None\<rparr>
   = Some \<lparr>chordSymbol = js ''Cmaj7'', preset = DROP2_1357_NO_BASS,
            midis = applyShift [55, 60, 64, 71] sh,
            v_notes = map sampleToNote (applyShift [55, 60, 64, 71] sh)\<rparr>"
  by (simp add: buildPadVoicing_def parse_Cmaj7 preset_Cmaj7 Let_def)

lemma build_C_omitted:
  "buildPadVoicing sampleChordGet sampleMidiFrom sampleToNote (js ''C'') c DROP2_1357_NO_BASS 0 \<lparr>omit = Some omitAll\<rparr>
   = Some \<lparr>chordSymbol = js ''C'', preset = DROP2_1357_NO_BASS,
            midis = [12 * (max 1 (c - 1) + 1)],
            v_notes = [sampleToNote (12 * (max 1 (c - 1) + 1))]\<rparr>"
  by (simp add: buildPadVoicing_def parse_C preset_C_omitted Let_def fallbackMidis_def applyShift_def
     orElse_def rootPc_def sampleMidiFrom_C) (simp add: pC_def sampleMidiFrom_C)

text \<open>
  C10. Whenever \<open>buildPadVoicing\<close> returns a result, its \<open>midis\<close> are in nondecreasing order:
  every preset ends in \<open>clampLowMud\<close>, which returns a sorted list, the fallback is a single
  pitch, and the transposition adds the same shift to every pitch.
\<close>

theorem buildPadVoicing_sorted:
  "buildPadVoicing chordGet midiFrom toNote symb centerOctave pre shift opts = Some v
   \<Longrightarrow> sorted (midis v)"
proof -
  assume a: "buildPadVoicing chordGet midiFrom toNote symb centerOctave pre shift opts = Some v"
  then obtain p where p: "parseChordSymbol chordGet symb = Some p"
    by (cases "parseChordSymbol chordGet symb") (simp_all add: buildPadVoicing_def)
  define m1 where "m1 = (if presetMidis midiFrom p centerOctave pre (omit opts) = []
       then fallbackMidis midiFrom p centerOctave
       else presetMidis midiFrom p centerOctave pre (omit opts))"
  have "midis v = applyShift m1 shift"
    using a p by (auto simp: buildPadVoicing_def Let_def m1_def)
  moreover have "sorted m1" unfolding m1_def by (rule premidis_sorted)
  ultimately show ?thesis by (simp add: applyShift_map sorted_add)
qed

theorem buildPadVoicing_sorted_witness:
  "buildPadVoicing sampleChordGet sampleMidiFrom sampleToNote (js ''Cmaj7'') 5 DROP2_1357_NO_BASS 3 \<lparr>omit = None\<rparr>
   = Some \<lparr>chordSymbol = js ''Cmaj7'', preset = DROP2_1357_NO_BASS,
            midis = [58, 63, 67, 74],
            v_notes = map sampleToNote [58, 63, 67, 74]\<rparr>
   \<and> sorted [58, 63, 67, 74::int]"
  using buildPadVoicing_sorted [OF build_Cmaj7 [of 3]]
  by (simp add: build_Cmaj7 applyShift_def)

text \<open>
  C2. Transposition is linear: for a symbol that parses, the call with \<open>transposeShift = shift\<close>
  and the call with \<open>transposeShift = 0\<close> both return a result, and the \<open>midis\<close> of the first
  are those of the second with \<open>shift\<close> added to each entry.
\<close>

theorem buildPadVoicing_shift_linear:
  "parseChordSymbol chordGet symb \<noteq> None \<Longrightarrow>
   \<exists>v v0. buildPadVoicing chordGet midiFrom toNote symb centerOctave pre shift opts = Some v
     \<and> buildPadVoicing chordGet midiFrom toNote symb centerOctave pre 0 opts = Some v0
     \<and> midis v = map (\<lambda>m. m + shift) (midis v0)
     \<and> length (midis v) = length (midis v0)
     \<and> (\<forall>i < length (midis v). midis v ! i = midis v0 ! i + shift)"
proof -
  assume "parseChordSymbol chordGet symb \<noteq> None"
  then obtain p where p: "parseChordSymbol chordGet symb = Some p" by blast
  show ?thesis
    by (simp add: buildPadVoicing_def Let_def p applyShift_map)
qed

theorem buildPadVoicing_shift_linear_witness:
  "parseChordSymbol sampleChordGet (js ''Cmaj7'') \<noteq> None
   \<and> (\<exists>v v0. buildPadVoicing sampleChordGet sampleMidiFrom sampleToNote (js ''Cmaj7'') 5 DROP2_1357_NO_BASS 3 \<lparr>omit = None\<rparr> = Some v
        \<and> buildPadVoicing sampleChordGet sampleMidiFrom sampleToNote (js ''Cmaj7'') 5 DROP2_1357_NO_BASS 0 \<lparr>omit = None\<rparr> = Some v0
        \<and> midis v = [58, 63, 67, 74] \<and> midis v0 = [55, 60, 64, 71]
        \<and> midis v = map (\<lambda>m. m + 3) (midis v0))"
  using buildPadVoicing_shift_linear [of sampleChordGet "js ''Cmaj7''" sampleMidiFrom sampleToNote 5
      DROP2_1357_NO_BASS 3 "\<lparr>omit = None\<rparr>"]
  by (simp add: parse_Cmaj7 build_Cmaj7 applyShift_def)

text \<open>
  C1 (as amended). \<open>buildPadVoicing\<close> returns nothing exactly when \<open>parseChordSymbol\<close> does,
  that is when the lookup gives the core of the symbol no tonic or the empty one. For a
  symbol that parses it returns a result whose \<open>midis\<close> are not empty and whose notes are as
  many as its \<open>midis\<close>. When the preset yields no pitch, the result is the single pitch of
  the slash bass, or of the root, in register \<open>max 1 (centerOctave - 1)\<close>, transposed: one
  register below the center whenever \<open>centerOctave\<close> is at least 2.
\<close>

theorem buildPadVoicing_nonempty:
  "(buildPadVoicing chordGet midiFrom toNote symb centerOctave pre shift opts = None
      \<longleftrightarrow> parseChordSymbol chordGet symb = None)
   \<and> (parseChordSymbol chordGet symb = None
      \<longleftrightarrow> (case c_tonic (chordGet (fst (splitSlash symb))) of None \<Rightarrow> True | Some t \<Rightarrow> t = []))
   \<and> (\<forall>p. parseChordSymbol chordGet symb = Some p \<longrightarrow>
        (\<exists>v. buildPadVoicing chordGet midiFrom toNote symb centerOctave pre shift opts = Some v
           \<and> midis v \<noteq> [] \<and> length (v_notes v) = length (midis v)
           \<and> (presetMidis midiFrom p centerOctave pre (omit opts) = [] \<longrightarrow>
                midis v = [midiFrom (orElse (slashBass p) (rootPc p)) (max 1 (centerOctave - 1)) + shift]
                \<and> (2 \<le> centerOctave \<longrightarrow>
                     midis v = [midiFrom (orElse (slashBass p) (rootPc p)) (centerOctave - 1) + shift]))))"
proof (intro conjI allI impI)
  show "(buildPadVoicing chordGet midiFrom toNote symb centerOctave pre shift opts = None)
      = (parseChordSymbol chordGet symb = None)"
    by (cases "parseChordSymbol chordGet symb") (simp_all add: buildPadVoicing_def Let_def)
next
  show "(parseChordSymbol chordGet symb = None)
      = (case c_tonic (chordGet (fst (splitSlash symb))) of None \<Rightarrow> True | Some t \<Rightarrow> t = [])"
    by (cases "splitSlash symb") (simp add: parseChordSymbol_def Let_def split: option.split)
next
  fix p
  assume p: "parseChordSymbol chordGet symb = Some p"
  define m1 where "m1 = (if presetMidis midiFrom p centerOctave pre (omit opts) = []
       then fallbackMidis midiFrom p centerOctave
       else presetMidis midiFrom p centerOctave pre (omit opts))"
  define v where "v = \<lparr> chordSymbol = symb, preset = pre, midis = applyShift m1 shift,
       v_notes = map toNote (applyShift m1 shift) \<rparr>"
  have b: "buildPadVoicing chordGet midiFrom toNote symb centerOctave pre shift opts = Some v"
    by (simp add: buildPadVoicing_def Let_def p v_def m1_def)
  have ne: "m1 \<noteq> []" by (simp add: m1_def fallbackMidis_def Let_def)
  have n: "midis v \<noteq> []" using ne by (simp add: v_def applyShift_map)
  have l: "length (v_notes v) = length (midis v)" by (simp add: v_def)
  have f: "presetMidis midiFrom p centerOctave pre (omit opts) = [] \<longrightarrow>
        midis v = [midiFrom (orElse (slashBass p) (rootPc p)) (max 1 (centerOctave - 1)) + shift]
        \<and> (2 \<le> centerOctave \<longrightarrow>
             midis v = [midiFrom (orElse (slashBass p) (rootPc p)) (centerOctave - 1) + shift])"
    by (simp add: v_def m1_def fallbackMidis_def Let_def applyShift_map max_def)
  show "\<exists>v. buildPadVoicing chordGet midiFrom toNote symb centerOctave pre shift opts = Some v
           \<and> midis v \<noteq> [] \<and> length (v_notes v) = length (midis v)
           \<and> (presetMidis midiFrom p centerOctave pre (omit opts) = [] \<longrightarrow>
                midis v = [midiFrom (orElse (slashBass p) (rootPc p)) (max 1 (centerOctave - 1)) + shift]
                \<and> (2 \<le> centerOctave \<longrightarrow>
                     midis v = [midiFrom (orElse (slashBass p) (rootPc p)) (centerOctave - 1) + shift]))"
    using b n l f by blast
qed

theorem buildPadVoicing_nonempty_witness:
  "parseChordSymbol sampleChordGet (js ''C'') = Some pC
   \<and> presetMidis sampleMidiFrom pC 5 DROP2_1357_NO_BASS (Some omitAll) = []
   \<and> (2::int) \<le> 5
   \<and> map_option midis (buildPadVoicing sampleChordGet sampleMidiFrom sampleToNote (js ''C'') 5
         DROP2_1357_NO_BASS 0 \<lparr>omit = Some omitAll\<rparr>) = Some [sampleMidiFrom (js ''C'') (5 - 1) + 0]
   \<and> parseChordSymbol sampleChordGet (js ''H'') = None
   \<and> buildPadVoicing sampleChordGet sampleMidiFrom sampleToNote (js ''H'') 5
         DROP2_1357_NO_BASS 0 \<lparr>omit = Some omitAll\<rparr> = None"
  using buildPadVoicing_nonempty [of sampleChordGet sampleMidiFrom sampleToNote "js ''C''" 5
      DROP2_1357_NO_BASS 0 "\<lparr>omit = Some omitAll\<rparr>"]
    buildPadVoicing_nonempty [of sampleChordGet sampleMidiFrom sampleToNote "js ''H''" 5
      DROP2_1357_NO_BASS 0 "\<lparr>omit = Some omitAll\<rparr>"]
  by (simp add: parse_C parse_H preset_C_omitted build_C_omitted sampleMidiFrom_C)

text \<open>
  With center octave 1 and every voice omitted, the fallback pitch of \<open>C\<close> is in register 1
  (pitch 24), not one register below the center (register 0, pitch 12).
\<close>

theorem buildPadVoicing_fallback_counterexample:
  "parseChordSymbol sampleChordGet (js ''C'') = Some pC
   \<and> presetMidis sampleMidiFrom pC 1 DROP2_1357_NO_BASS (Some omitAll) = []
   \<and> map_option midis (buildPadVoicing sampleChordGet sampleMidiFrom sampleToNote (js ''C'') 1
         DROP2_1357_NO_BASS 0 \<lparr>omit = Some omitAll\<rparr>) = Some [24]
   \<and> sampleMidiFrom (orElse (slashBass pC) (rootPc pC)) (1 - 1) = 12
   \<and> map_option midis (buildPadVoicing sampleChordGet sampleMidiFrom sampleToNote (js ''C'') 1
         DROP2_1357_NO_BASS 0 \<lparr>omit = Some omitAll\<rparr>)
       \<noteq> Some [sampleMidiFrom (orElse (slashBass pC) (rootPc pC)) (1 - 1)]"
  by (simp add: parse_C preset_C_omitted build_C_omitted sampleMidiFrom_C orElse_def rootPc_def)
    (simp add: pC_def sampleMidiFrom_C)

subsection \<open>Roman numerals\<close>

lemma lowerCU_not_Delta: "lowerCU c \<noteq> cuDelta"
  by (simp add: lowerCU_def cuDelta_def cuDeltaSmall_def)

lemma includes_js_iff: "includes_js s pat \<longleftrightarrow> (\<exists>a b. s = a @ pat @ b)"
proof (induction s)
  case Nil
  then show ?case by simp
next
  case (Cons c cs)
  show ?case
  proof
    assume "includes_js (c # cs) pat"
    then consider "prefix pat (c # cs)" | "includes_js cs pat" by auto
    then show "\<exists>a b. c # cs = a @ pat @ b"
    proof cases
      case 1
      then obtain zs where "c # cs = pat @ zs" by (auto simp: prefix_def)
      then have "c # cs = [] @ pat @ zs" by simp
      then show ?thesis by blast
    next
      case 2
      then obtain a b where "cs = a @ pat @ b" using Cons.IH by blast
      then have "c # cs = (c # a) @ pat @ b" by simp
      then show ?thesis by blast
    qed
  next
    assume "\<exists>a b. c # cs = a @ pat @ b"
    then obtain a b where e: "c # cs = a @ pat @ b" by blast
    show "includes_js (c # cs) pat"
    proof (cases a)
      case Nil
      then have "prefix pat (c # cs)" using e by (simp add: prefix_def)
      then show ?thesis by simp
    next
      case (Cons x a')
      then have "cs = a' @ pat @ b" using e by simp
      then have "includes_js cs pat" using Cons.IH by blast
      then show ?thesis by simp
    qed
  qed
qed

lemma delta7_dead: "\<not> includes_js (toLowerCase s) (cuDelta # js ''7'')"
proof
  assume "includes_js (toLowerCase s) (cuDelta # js ''7'')"
  then obtain a b where "toLowerCase s = a @ (cuDelta # js ''7'') @ b"
    using includes_js_iff by blast
  then have "cuDelta \<in> set (toLowerCase s)" by simp
  then obtain x where "cuDelta = lowerCU x" by (auto simp: toLowerCase_def)
  then show False using lowerCU_not_Delta [of x] by simp
qed

lemma splitSlash_MinMaj7: "splitSlash symMinMaj7 = (symMinMaj7, None)"
  by (simp add: symMinMaj7_def js_eval split_eval)

lemma parse_MinMaj7: "parseChordSymbol sampleChordGet symMinMaj7 =
   Some \<lparr>core = symMinMaj7, slashBass = None, tonic = js ''C'',
      p_notes = map js [''C'', ''Eb'', ''G'', ''B''], qualityGuess = minor\<rparr>"
  unfolding parseChordSymbol_def splitSlash_MinMaj7
  by (simp add: symMinMaj7_def sampleChordGet_def sampleChord_def guessQuality_def js_eval)

lemma pcToSemitone_C: "pcToSemitone (js ''C'') = 0"
  by (simp add: pcToSemitone_def js_eval Let_def signed_modulo_int_def)

lemma degree_C: "foldl (degreeStep 0 (degreeIntervals mode_major)) (0, 0, 999) [0..<length (degreeIntervals mode_major)] = (0, 0, 0)"
  by (simp add: degreeIntervals_def degreeStep_def upt_conv_Cons Let_def signed_modulo_int_def)

lemma isMaj7_ascii_only:
  "isMaj7 symbol \<longleftrightarrow>
     includes_js (toLowerCase symbol) (js ''maj7'') \<or> includes_js (toLowerCase symbol) (js ''ma7'')"
  by (simp add: isMaj7_def Let_def delta7_dead)

text \<open>
  C4. The claim has the marker \<open>\<Delta>7\<close> appended when the core contains \<open>maj7\<close>, \<open>ma7\<close> or \<open>\<Delta>7\<close>.
  \<open>isMaj7\<close> looks for \<open>\<Delta>7\<close> in the lower-cased symbol, where the capital delta has become
  a small one, so that test never succeeds (\<open>isMaj7_ascii_only\<close>). At the symbol \<open>C-\<Delta>7\<close> in
  C major: the core contains \<open>\<Delta>7\<close>, \<open>isMaj7\<close> is false, and the result is \<open>i7\<close>, which ends
  with \<open>7\<close>, not with \<open>\<Delta>7\<close>.
\<close>

theorem romanizeChord_Delta7:
  "includes_js symMinMaj7 (cuDelta # js ''7'')
   \<and> \<not> isMaj7 symMinMaj7
   \<and> romanizeChord sampleChordGet symMinMaj7 keyC = js ''i7''"
proof -
  have a: "includes_js symMinMaj7 (cuDelta # js ''7'')"
    by (simp add: symMinMaj7_def js_eval)
  have b: "\<not> isMaj7 symMinMaj7"
    by (simp add: isMaj7_def Let_def delta7_dead) (simp add: symMinMaj7_def js_eval)
  have c: "isSeventhChord symMinMaj7"
    by (simp add: isSeventhChord_def symMinMaj7_def js_eval)
  have q: "qualityToRomanCase minor (js ''I'') symMinMaj7 = js ''i''"
    by (simp add: qualityToRomanCase_def symMinMaj7_def js_eval)
  have "romanizeChord sampleChordGet symMinMaj7 keyC = js ''i7''"
    by (simp add: romanizeChord_def parse_MinMaj7 keyC_def pcToSemitone_C degree_C Let_def b c
        accidentalPrefix_def DEGREE_ROMAN_def q) (simp add: js_def)
  then show ?thesis using a b by simp
qed

subsection \<open>Performance events\<close>

lemma shuffleLoop_mset:
  "unitRandom rnd \<Longrightarrow> i < length arr \<Longrightarrow>
     mset (shuffleLoop rnd k i arr) = mset arr \<and> length (shuffleLoop rnd k i arr) = length arr"
proof (induction i arbitrary: k arr)
  case 0
  then show ?case by simp
next
  case (Suc i')
  define j where "j = nat \<lfloor>rnd k * real (Suc i' + 1)\<rfloor>"
  have r: "0 \<le> rnd k \<and> rnd k < 1" using Suc.prems(1) by (simp add: unitRandom_def)
  have "rnd k * real (Suc i' + 1) < real (Suc i' + 1)"
    using r by (simp add: mult_less_cancel_right1)
  then have "\<lfloor>rnd k * real (Suc i' + 1)\<rfloor> < int (Suc i' + 1)"
    by (simp add: floor_less_iff)
  then have jl: "j < Suc i' + 1" unfolding j_def by linarith
  then have jlen: "j < length arr" using Suc.prems(2) by simp
  define arr2 where "arr2 = arr[Suc i' := arr ! j, j := arr ! Suc i']"
  have m: "mset arr2 = mset arr" unfolding arr2_def
    using mset_swap [of j arr "Suc i'"] jlen Suc.prems(2) by simp
  have l: "length arr2 = length arr" by (simp add: arr2_def)
  have i: "i' < length arr2" using l Suc.prems(2) by simp
  have "shuffleLoop rnd k (Suc i') arr = shuffleLoop rnd (k + 1) i' arr2"
    by (simp add: Let_def j_def arr2_def)
  then show ?case using Suc.IH [OF Suc.prems(1) i, of "k + 1"] m l by simp
qed

lemma shuffleInPlace_mset: "unitRandom rnd \<Longrightarrow> mset (shuffleInPlace rnd arr) = mset arr"
proof (cases arr)
  case Nil
  then show ?thesis by (simp add: shuffleInPlace_def)
next
  case (Cons a as)
  assume "unitRandom rnd"
  then show ?thesis using shuffleLoop_mset [of rnd "length arr - 1" arr 0] Cons
    by (simp add: shuffleInPlace_def)
qed

lemma orderForChord_mset: "unitRandom rnd \<Longrightarrow> mset (orderForChord rnd items dir) = mset items"
  by (simp add: orderForChord_def Let_def shuffleInPlace_mset)

lemma orderForArp_mset: "unitRandom rnd \<Longrightarrow> mset (orderForArp rnd items pat) = mset items"
  by (simp add: orderForArp_def Let_def shuffleInPlace_mset)

lemma eventsLoop_keys:
  "map evKey (eventsLoop rnd p delays a b idx k its) = map itKey its"
  by (induction its arbitrary: idx k) (simp_all add: Let_def evKey_def itKey_def)

lemma zip_nth_upt:
  "length xs = length ys \<Longrightarrow> map (\<lambda>i. (xs ! i, ys ! i)) [0..<length xs] = zip xs ys"
  by (rule nth_equalityI) simp_all

lemma items_keys:
  assumes "length nts = length mds"
  shows "map itKey (mkItems nts mds) = map (\<lambda>(a, m). (a, m, m = Max (set mds))) (zip nts mds)"
proof -
  have "map itKey (mkItems nts mds)
      = map (\<lambda>(a, m). (a, m, m = Max (set mds))) (map (\<lambda>i. (nts ! i, mds ! i)) [0..<length nts])"
    by (simp add: mkItems_def itKey_def)
  then show ?thesis using zip_nth_upt [OF assms] by simp
qed

lemma playOrderOf_mset: "unitRandom rnd \<Longrightarrow> mset (playOrderOf rnd p items) = mset items"
  by (simp add: playOrderOf_def orderForArp_mset orderForChord_mset)

lemma buildNoteEvents_keys:
  assumes "nts \<noteq> []" "length nts = length mds"
  shows "map evKey (buildNoteEvents rnd nts mds perf dur)
       = map itKey (playOrderOf rnd (normalizePerf perf) (mkItems nts mds))"
  using assms
  by (simp add: buildNoteEvents_def Let_def eventsLoop_keys playOrderOf_def mkItems_def)

lemma buildNoteEvents_perm:
  assumes "nts \<noteq> []" "length nts = length mds" "unitRandom rnd"
  shows "mset (map evKey (buildNoteEvents rnd nts mds perf dur))
       = mset (map (\<lambda>(a, m). (a, m, m = Max (set mds))) (zip nts mds))"
proof -
  have "mset (map evKey (buildNoteEvents rnd nts mds perf dur))
      = image_mset itKey (mset (playOrderOf rnd (normalizePerf perf) (mkItems nts mds)))"
    by (simp add: buildNoteEvents_keys [OF assms(1,2)])
  also have "\<dots> = image_mset itKey (mset (mkItems nts mds))"
    using playOrderOf_mset [OF assms(3)] by simp
  also have "\<dots> = mset (map itKey (mkItems nts mds))" by simp
  finally show ?thesis using items_keys [OF assms(2)] by simp
qed

lemma count_top:
  "length (filter (\<lambda>t. snd (snd t)) (map (\<lambda>(a, m). (a, m, m = (t::int))) (zip nts mds)))
     = count_list (map snd (zip nts mds)) t"
proof (induction nts arbitrary: mds)
  case Nil
  then show ?case by simp
next
  case (Cons x xs)
  then show ?case by (cases mds) auto
qed

lemma length_filter_mset_cong:
  assumes "mset xs = mset ys"
  shows "length (filter P xs) = length (filter P ys)"
proof -
  have "mset (filter P xs) = mset (filter P ys)" using assms by simp
  then show ?thesis by (rule mset_eq_length)
qed

lemma unitRandom_rndZero: "unitRandom rndZero"
  by (simp add: unitRandom_def rndZero_def)

lemma eventsLoop_delays:
  "\<not> n_timingJitterMs p > 0 \<Longrightarrow> idx + length its \<le> length delays \<Longrightarrow>
   map delayMs (eventsLoop rnd p delays a b idx k its)
     = map (\<lambda>d. max 0 d) (take (length its) (drop idx delays))"
proof (induction its arbitrary: idx k)
  case Nil
  then show ?case by simp
next
  case (Cons it its)
  have i: "idx < length delays" using Cons.prems(2) by simp
  have d: "drop idx delays = delays ! idx # drop (Suc idx) delays"
    using i by (simp add: Cons_nth_drop_Suc)
  have s: "Suc idx + length its \<le> length delays" using Cons.prems(2) by simp
  show ?case
    using Cons.IH [OF Cons.prems(1) s] Cons.prems(1) i
    by (simp add: Let_def d)
qed

lemma map_real_mult_nonneg:
  "0 \<le> step \<Longrightarrow> map (\<lambda>d. max 0 d) (map (\<lambda>i. real i * step) xs) = map (\<lambda>i. real i * step) xs"
  by (induction xs) (simp_all add: max_def)

text \<open>
  C3 (as amended). In a non-empty, length-matched call, with \<open>Math.random\<close> drawing from
  \<open>[0, 1)\<close>, the events flagged \<open>isTop\<close> are exactly those whose pitch is the maximum of
  \<open>midis\<close>; their number is the number of occurrences of that maximum in \<open>midis\<close>, which is at
  least one, and is one when the maximum occurs once. The events are a rearrangement of the
  notes and pitches given.
\<close>

theorem buildNoteEvents_isTop:
  assumes "nts \<noteq> []" "length nts = length mds" "unitRandom rnd"
  shows "(\<forall>e \<in> set (buildNoteEvents rnd nts mds perf dur). ev_isTop e \<longleftrightarrow> ev_midi e = Max (set mds))
     \<and> length (filter ev_isTop (buildNoteEvents rnd nts mds perf dur)) = count_list mds (Max (set mds))
     \<and> 1 \<le> length (filter ev_isTop (buildNoteEvents rnd nts mds perf dur))
     \<and> mset (map (\<lambda>e. (ev_note e, ev_midi e)) (buildNoteEvents rnd nts mds perf dur)) = mset (zip nts mds)"
proof -
  define evs where "evs = buildNoteEvents rnd nts mds perf dur"
  define top where "top = Max (set mds)"
  define ref where "ref = map (\<lambda>(a, m). (a, m, m = top)) (zip nts mds)"
  have perm: "mset (map evKey evs) = mset ref"
    unfolding evs_def ref_def top_def by (rule buildNoteEvents_perm [OF assms])
  have a: "\<forall>e \<in> set evs. ev_isTop e \<longleftrightarrow> ev_midi e = top"
  proof
    fix e assume "e \<in> set evs"
    then have "evKey e \<in> set (map evKey evs)" by simp
    moreover have "set (map evKey evs) = set ref" using perm by (rule mset_eq_setD)
    ultimately have "evKey e \<in> set ref" by simp
    then show "ev_isTop e \<longleftrightarrow> ev_midi e = top"
      by (auto simp: ref_def evKey_def)
  qed
  have "length (filter ev_isTop evs) = length (filter (\<lambda>t. snd (snd t)) (map evKey evs))"
    by (simp add: filter_map comp_def evKey_def)
  also have "\<dots> = length (filter (\<lambda>t. snd (snd t)) ref)"
    using perm by (rule length_filter_mset_cong)
  also have "\<dots> = count_list (map snd (zip nts mds)) top"
    unfolding ref_def by (rule count_top)
  also have "\<dots> = count_list mds top" using assms(2) by simp
  finally have b: "length (filter ev_isTop evs) = count_list mds top" .
  have "mds \<noteq> []" using assms(1,2) by auto
  then have "top \<in> set mds" unfolding top_def by (simp add: Max_in)
  then have "count_list mds top \<noteq> 0" by (simp add: count_list_0_iff)
  then have c: "1 \<le> count_list mds top" by simp
  have "map (\<lambda>e. (ev_note e, ev_midi e)) evs = map (\<lambda>t. (fst t, fst (snd t))) (map evKey evs)"
    by (simp add: evKey_def comp_def)
  then have "mset (map (\<lambda>e. (ev_note e, ev_midi e)) evs)
      = image_mset (\<lambda>t. (fst t, fst (snd t))) (mset (map evKey evs))"
    by (simp only: mset_map)
  also have "\<dots> = image_mset (\<lambda>t. (fst t, fst (snd t))) (mset ref)"
    using perm by (rule arg_cong)
  also have "\<dots> = mset (map (\<lambda>t. (fst t, fst (snd t))) ref)"
    by (simp only: mset_map)
  also have "\<dots> = mset (zip nts mds)"
    by (simp add: ref_def comp_def case_prod_beta)
  finally have d: "mset (map (\<lambda>e. (ev_note e, ev_midi e)) evs) = mset (zip nts mds)" .
  show ?thesis using a b c d unfolding evs_def top_def by simp
qed

theorem buildNoteEvents_isTop_witness:
  "[js ''C4'', js ''E4'', js ''G4''] \<noteq> [] \<and> length [js ''C4'', js ''E4'', js ''G4''] = length [60, 64, 67::int]
   \<and> unitRandom rndZero
   \<and> length (filter ev_isTop (buildNoteEvents rndZero [js ''C4'', js ''E4'', js ''G4''] [60, 64, 67] perfPlain 0.85)) = 1
   \<and> mset (map (\<lambda>e. (ev_note e, ev_midi e))
        (buildNoteEvents rndZero [js ''C4'', js ''E4'', js ''G4''] [60, 64, 67] perfPlain 0.85))
      = mset (zip [js ''C4'', js ''E4'', js ''G4''] [60, 64, 67])"
  using buildNoteEvents_isTop [of "[js ''C4'', js ''E4'', js ''G4'']" "[60, 64, 67]" rndZero perfPlain "0.85"]
  by (simp add: unitRandom_rndZero)

text \<open>Two notes tied at the maximum pitch are both flagged: the first occurrence does not win.\<close>

theorem buildNoteEvents_isTop_counterexample:
  "map ev_isTop (buildNoteEvents rndZero [js ''C5'', js ''C5''] [72, 72] perfPlain 0.85) = [True, True]
   \<and> length (filter ev_isTop (buildNoteEvents rndZero [js ''C5'', js ''C5''] [72, 72] perfPlain 0.85)) = 2"
  by (simp add: buildNoteEvents_def normalizePerf_def perfPlain_def orElse_def Let_def
      orderForChord_def upt_conv_Cons shuffleDraws_def clamp_def clamp01_def)

text \<open>
  C7 (as amended). In arpeggio mode with pattern \<open>1357\<close> the events keep the order of the
  input, and with \<open>timingJitterMs = 0\<close> the \<open>i\<close>-th event has the delay \<open>i\<close> times the normalized
  step \<open>max 10 arpStepMs\<close> (90 for a step that is not finite): \<open>i * arpStepMs\<close> whenever
  \<open>arpStepMs\<close> is at least 10.
\<close>

theorem buildNoteEvents_arp_1357:
  assumes "nts \<noteq> []" "length nts = length mds"
    "playMode perf = Some arp" "arpPattern perf = Some pat_1357"
  shows "map ev_note (buildNoteEvents rnd nts mds perf dur) = nts
     \<and> map ev_midi (buildNoteEvents rnd nts mds perf dur) = mds
     \<and> (timingJitterMs perf = Some 0 \<longrightarrow>
          map delayMs (buildNoteEvents rnd nts mds perf dur)
            = map (\<lambda>i. real i * max 10 (orElse (arpStepMs perf) 90)) [0..<length nts])
     \<and> (\<forall>s. timingJitterMs perf = Some 0 \<and> arpStepMs perf = Some s \<and> 10 \<le> s \<longrightarrow>
          map delayMs (buildNoteEvents rnd nts mds perf dur) = map (\<lambda>i. real i * s) [0..<length nts])"
proof -
  define p where "p = normalizePerf perf"
  have pm: "n_playMode p = arp" and pa: "n_arpPattern p = pat_1357"
    using assms(3,4) by (simp_all add: p_def normalizePerf_def orElse_def)
  have st: "n_arpStepMs p = max 10 (orElse (arpStepMs perf) 90)"
    by (simp add: p_def normalizePerf_def)
  have po: "playOrderOf rnd p (mkItems nts mds) = mkItems nts mds"
    by (simp add: playOrderOf_def pm pa orderForArp_def)
  have keys: "map evKey (buildNoteEvents rnd nts mds perf dur) = map itKey (mkItems nts mds)"
    using buildNoteEvents_keys [OF assms(1,2), of rnd perf dur] po by (simp add: p_def)
  have ik: "map itKey (mkItems nts mds) = map (\<lambda>(a, m). (a, m, m = Max (set mds))) (zip nts mds)"
    by (rule items_keys [OF assms(2)])
  have "map ev_note (buildNoteEvents rnd nts mds perf dur)
      = map fst (map evKey (buildNoteEvents rnd nts mds perf dur))"
    by (simp add: evKey_def comp_def)
  also have "\<dots> = map fst (zip nts mds)"
    unfolding keys ik by (simp add: comp_def case_prod_beta)
  finally have a: "map ev_note (buildNoteEvents rnd nts mds perf dur) = nts"
    using assms(2) by simp
  have "map ev_midi (buildNoteEvents rnd nts mds perf dur)
      = map (\<lambda>t. fst (snd t)) (map evKey (buildNoteEvents rnd nts mds perf dur))"
    by (simp add: evKey_def comp_def)
  also have "\<dots> = map snd (zip nts mds)"
    unfolding keys ik by (simp add: comp_def case_prod_beta)
  finally have b: "map ev_midi (buildNoteEvents rnd nts mds perf dur) = mds"
    using assms(2) by simp
  have c: "map delayMs (buildNoteEvents rnd nts mds perf dur)
            = map (\<lambda>i. real i * max 10 (orElse (arpStepMs perf) 90)) [0..<length nts]"
    if j: "timingJitterMs perf = Some 0"
  proof -
    have nj: "\<not> n_timingJitterMs p > 0"
      using j by (simp add: p_def normalizePerf_def orElse_def)
    define delays where "delays = map (\<lambda>i. real i * n_arpStepMs p) [0..<length nts]"
    have len: "0 + length (mkItems nts mds) \<le> length delays"
      by (simp add: delays_def mkItems_def)
    have "map delayMs (buildNoteEvents rnd nts mds perf dur)
        = map delayMs (eventsLoop rnd p delays
            (min (clamp dur 0.05 10) (max 0.05 (n_arpStepMs p / 1000 * n_arpGate p)))
            (clamp dur 0.05 10) 0 (shuffleDraws p (length nts)) (mkItems nts mds))"
      using assms(1,2) pm pa
      by (simp add: buildNoteEvents_def Let_def orderForArp_def delays_def mkItems_def flip: p_def)
    also have "\<dots> = map (\<lambda>d. max 0 d) (take (length (mkItems nts mds)) (drop 0 delays))"
      by (rule eventsLoop_delays [OF nj len])
    also have "\<dots> = map (\<lambda>d. max 0 d) delays"
      by (simp add: delays_def mkItems_def)
    also have "\<dots> = delays"
      unfolding delays_def by (rule map_real_mult_nonneg) (simp add: st)
    finally show ?thesis by (simp add: delays_def st)
  qed
  have d: "\<forall>s. timingJitterMs perf = Some 0 \<and> arpStepMs perf = Some s \<and> 10 \<le> s \<longrightarrow>
          map delayMs (buildNoteEvents rnd nts mds perf dur) = map (\<lambda>i. real i * s) [0..<length nts]"
    using c by (auto simp: orElse_def max_def)
  show ?thesis using a b c d by blast
qed

theorem buildNoteEvents_arp_1357_witness:
  "[js ''G4'', js ''C4'', js ''E5'', js ''B4''] \<noteq> []
   \<and> length [js ''G4'', js ''C4'', js ''E5'', js ''B4''] = length [67, 60, 76, 71::int]
   \<and> playMode (perfArp 90) = Some arp \<and> arpPattern (perfArp 90) = Some pat_1357
   \<and> timingJitterMs (perfArp 90) = Some 0 \<and> arpStepMs (perfArp 90) = Some 90 \<and> (10::real) \<le> 90
   \<and> map ev_midi (buildNoteEvents rndZero [js ''G4'', js ''C4'', js ''E5'', js ''B4''] [67, 60, 76, 71] (perfArp 90) 0.9)
        = [67, 60, 76, 71]
   \<and> map delayMs (buildNoteEvents rndZero [js ''G4'', js ''C4'', js ''E5'', js ''B4''] [67, 60, 76, 71] (perfArp 90) 0.9)
        = [0, 90, 180, 270]"
  using buildNoteEvents_arp_1357 [of "[js ''G4'', js ''C4'', js ''E5'', js ''B4'']" "[67, 60, 76, 71]"
      "perfArp 90" rndZero "0.9"]
  by (simp add: perfArp_def upt_conv_Cons orElse_def)

text \<open>With \<open>arpStepMs = 5\<close> the delays are \<open>[0, 10, 20, 30]\<close>, not \<open>[0, 5, 10, 15]\<close>.\<close>

theorem buildNoteEvents_arp_step_counterexample:
  "playMode (perfArp 5) = Some arp \<and> arpPattern (perfArp 5) = Some pat_1357
   \<and> timingJitterMs (perfArp 5) = Some 0 \<and> arpStepMs (perfArp 5) = Some 5
   \<and> map delayMs (buildNoteEvents rndZero [js ''G4'', js ''C4'', js ''E5'', js ''B4''] [67, 60, 76, 71] (perfArp 5) 0.9)
        = [0, 10, 20, 30]
   \<and> map (\<lambda>i. real i * 5) [0..<4] = [0, 5, 10, 15]"
  by (simp add: buildNoteEvents_def normalizePerf_def perfArp_def orElse_def Let_def
      orderForArp_def upt_conv_Cons shuffleDraws_def clamp_def clamp01_def)

subsection \<open>Holds\<close>

lemma events_samplePad:
  "buildNoteEvents rndZero [js ''C4'', js ''E4'', js ''G4''] [60, 64, 67] perfPlain 0.9
    = [\<lparr>ev_note = js ''C4'', ev_midi = 60, ev_isTop = False, delayMs = 0, velocity = 0.75, durSec = 0.9\<rparr>,
       \<lparr>ev_note = js ''E4'', ev_midi = 64, ev_isTop = False, delayMs = 0, velocity = 0.75, durSec = 0.9\<rparr>,
       \<lparr>ev_note = js ''G4'', ev_midi = 67, ev_isTop = True, delayMs = 0, velocity = 0.75, durSec = 0.9\<rparr>]"
  by (simp add: buildNoteEvents_def normalizePerf_def perfPlain_def orElse_def Let_def
      orderForChord_def upt_conv_Cons shuffleDraws_def clamp_def clamp01_def rndZero_def)

lemma enter_idle: "startHold_enter 0 pageIdle = Some (samplePad, pageIdle\<lparr>guidePadIdx := 0\<rparr>)"
  by (simp add: startHold_enter_def pageIdle_def samplePad_def Let_def)

lemma held_hold:
  "activeHold pageHeld = [0 \<mapsto> \<lparr>h_notes = [js ''C4'', js ''E4'', js ''G4''], scheduleIds = [0, 1, 2]\<rparr>]"
  unfolding pageHeld_def startHoldByIndex_def enter_idle
  by (simp add: startHold_resume_def Let_def pushLog_def requestSyncActiveMidis_def
      ensureAudioReady_def pageIdle_def samplePad_def events_samplePad sampleTone_def
      numeral_2_eq_2)

text \<open>
  Handlers that run one after the other: starting a hold on an index that has a live one
  returns before the \<open>await\<close> and leaves the whole state as it was, and so does stopping a
  hold on an index that has none. Neither handler touches the hold of another index;
  stopping removes the hold of its index, and a start that gets past its checks leaves a
  hold on its index.
\<close>

lemma hold_sequential_noops:
  "(activeHold s idx \<noteq> None \<longrightarrow>
       startHold_enter idx s = None \<and> startHoldByIndex T rnd now idx s = s)
   \<and> (activeHold s idx = None \<longrightarrow> stopHoldByIndex T idx s = s)
   \<and> (\<forall>j. j \<noteq> idx \<longrightarrow>
         activeHold (startHoldByIndex T rnd now idx s) j = activeHold s j
       \<and> activeHold (stopHoldByIndex T idx s) j = activeHold s j)
   \<and> activeHold (stopHoldByIndex T idx s) idx = None
   \<and> (startHold_enter idx s \<noteq> None \<longrightarrow>
         (\<exists>h. activeHold (startHoldByIndex T rnd now idx s) idx = Some h))"
proof (intro conjI allI impI)
  assume "activeHold s idx \<noteq> None"
  then show e: "startHold_enter idx s = None"
    by (auto simp: startHold_enter_def Let_def)
  then show "startHoldByIndex T rnd now idx s = s"
    by (simp add: startHoldByIndex_def)
next
  assume "activeHold s idx = None"
  then show "stopHoldByIndex T idx s = s" by (simp add: stopHoldByIndex_def)
next
  fix j assume "j \<noteq> idx"
  then show "activeHold (startHoldByIndex T rnd now idx s) j = activeHold s j"
    by (auto simp: startHoldByIndex_def startHold_enter_def startHold_resume_def Let_def pushLog_def
        requestSyncActiveMidis_def ensureAudioReady_def split: option.splits prod.splits if_splits)
next
  fix j assume "j \<noteq> idx"
  then show "activeHold (stopHoldByIndex T idx s) j = activeHold s j"
    by (auto simp: stopHoldByIndex_def Let_def requestSyncActiveMidis_def split: option.splits)
next
  show "activeHold (stopHoldByIndex T idx s) idx = None"
    by (auto simp: stopHoldByIndex_def Let_def requestSyncActiveMidis_def split: option.splits)
next
  assume "startHold_enter idx s \<noteq> None"
  then show "\<exists>h. activeHold (startHoldByIndex T rnd now idx s) idx = Some h"
    by (auto simp: startHoldByIndex_def startHold_resume_def Let_def pushLog_def
        requestSyncActiveMidis_def ensureAudioReady_def split: option.splits prod.splits if_splits)
qed

lemma hold_sequential_noops_example:
  "activeHold pageHeld 0 = Some \<lparr>h_notes = [js ''C4'', js ''E4'', js ''G4''], scheduleIds = [0, 1, 2]\<rparr>
   \<and> startHoldByIndex sampleTone rndZero (js ''12:00:01'') 0 pageHeld = pageHeld
   \<and> activeHold pageHeld 1 = None
   \<and> stopHoldByIndex sampleTone 1 pageHeld = pageHeld
   \<and> activeHold (stopHoldByIndex sampleTone 0 pageHeld) 0 = None
   \<and> startHold_enter 0 pageIdle \<noteq> None"
  using hold_sequential_noops [of pageHeld 0 sampleTone rndZero "js ''12:00:01''"]
    hold_sequential_noops [of pageHeld 1 sampleTone rndZero "js ''12:00:01''"]
  by (simp add: held_hold enter_idle)

text \<open>
  The test for a live hold is made before the \<open>await\<close> and the hold is written after it,
  without a second test: a handler entered while another is suspended on the same index
  passes the test as well.
\<close>

lemma startHold_enter_again:
  "startHold_enter idx s = Some (p, s1) \<Longrightarrow>
     startHold_enter idx s1 = Some (p, s1) \<and> activeHold s1 idx = None"
  by (auto simp: startHold_enter_def Let_def split: if_splits)

lemma enter_idle_again:
  "startHold_enter 0 (pageIdle\<lparr>guidePadIdx := 0\<rparr>) = Some (samplePad, pageIdle\<lparr>guidePadIdx := 0\<rparr>)"
  using startHold_enter_again [OF enter_idle] by simp

lemma overlap_state:
  "activeHold pageOverlap = [0 \<mapsto> \<lparr>h_notes = [js ''C4'', js ''E4'', js ''G4''], scheduleIds = [3, 4, 5]\<rparr>]
   \<and> engine pageOverlap =
        (6, [(0, js ''C4'', 0, 0.75), (1, js ''E4'', 0, 0.75), (2, js ''G4'', 0, 0.75),
             (3, js ''C4'', 0, 0.75), (4, js ''E4'', 0, 0.75), (5, js ''G4'', 0, 0.75)])
   \<and> length (logs pageOverlap) = 2
   \<and> synthReady pageOverlap"
proof -
  have n3: "(3::nat) = Suc (Suc (Suc 0))" by simp
  have n4: "(4::nat) = Suc (Suc (Suc (Suc 0)))" by simp
  have n5: "(5::nat) = Suc (Suc (Suc (Suc (Suc 0))))" by simp
  have n6: "(6::nat) = Suc (Suc (Suc (Suc (Suc (Suc 0)))))" by simp
  show ?thesis
    unfolding pageOverlap_def startHold_overlapped_def enter_idle
    by (simp add: enter_idle_again)
      (simp add: startHold_resume_def Let_def pushLog_def requestSyncActiveMidis_def
        ensureAudioReady_def pageIdle_def samplePad_def events_samplePad sampleTone_def
        numeral_2_eq_2 n3 n4 n5 n6)
qed

text \<open>
  C9. The claim has a start on an index that is already held leave the original hold's
  notes and schedule ids untouched and create no duplicate callbacks. Two presses on pad 0
  that overlap at the \<open>await\<close> both pass the test: six callbacks are scheduled for the three
  notes, the hold that is recorded has the ids 3, 4, 5 of the second press, and stopping
  the hold clears those and leaves the callbacks 0, 1, 2 of the first press scheduled,
  with no hold that owns them.
\<close>

theorem startHold_overlap_duplicates:
  "startHold_enter 0 pageIdle = Some (samplePad, pageIdle\<lparr>guidePadIdx := 0\<rparr>)
   \<and> startHold_enter 0 (pageIdle\<lparr>guidePadIdx := 0\<rparr>) = Some (samplePad, pageIdle\<lparr>guidePadIdx := 0\<rparr>)
   \<and> activeHold pageOverlap 0
        = Some \<lparr>h_notes = [js ''C4'', js ''E4'', js ''G4''], scheduleIds = [3, 4, 5]\<rparr>
   \<and> map fst (snd (engine pageOverlap)) = [0, 1, 2, 3, 4, 5]
   \<and> length (logs pageOverlap) = 2
   \<and> activeHold (stopHoldByIndex sampleTone 0 pageOverlap) 0 = None
   \<and> map fst (snd (engine (stopHoldByIndex sampleTone 0 pageOverlap))) = [0, 1, 2]"
proof -
  have a: "activeHold pageOverlap 0
        = Some \<lparr>h_notes = [js ''C4'', js ''E4'', js ''G4''], scheduleIds = [3, 4, 5]\<rparr>"
    using overlap_state by simp
  have b: "map fst (snd (engine pageOverlap)) = [0, 1, 2, 3, 4, 5]"
    using overlap_state by simp
  have c: "engine (stopHoldByIndex sampleTone 0 pageOverlap)
      = (6, [(0, js ''C4'', 0, 0.75), (1, js ''E4'', 0, 0.75), (2, js ''G4'', 0, 0.75)])"
    using overlap_state
    by (simp add: stopHoldByIndex_def a Let_def requestSyncActiveMidis_def sampleTone_def)
  have d: "activeHold (stopHoldByIndex sampleTone 0 pageOverlap) 0 = None"
    by (simp add: stopHoldByIndex_def a Let_def requestSyncActiveMidis_def)
  show ?thesis
    using a b c d overlap_state by (simp add: enter_idle enter_idle_again)
qed

theorem startHold_overlap_duplicates_witness:
  "pm_ok samplePad \<and> pm_notes samplePad \<noteq> [] \<and> activeHold pageIdle 0 = None
   \<and> startHold_enter 0 pageIdle \<noteq> None
   \<and> startHold_enter 0 (pageIdle\<lparr>guidePadIdx := 0\<rparr>) \<noteq> None
   \<and> scheduleIds (the (activeHold pageOverlap 0)) = [3, 4, 5]
   \<and> map fst (snd (engine (stopHoldByIndex sampleTone 0 pageOverlap))) = [0, 1, 2]"
  using startHold_overlap_duplicates
  by (simp add: samplePad_def pageIdle_def)

end
